theory Spec2Isabelle
  imports Complex_Main
begin

section \<open>Strings and numbers of the host language\<close>

text \<open>
  The program is TypeScript. Its \<open>number\<close> values are modelled by exact reals: every
  arithmetic operation of the source is the corresponding operation on \<^typ>\<open>real\<close>, so
  rounding of IEEE doubles is not part of the model. What the theorems of the claims
  state of computed numbers is therefore either the value at one input, on which doubles
  give the same value, or a property that rounding to the nearest double keeps (a count,
  an order that is not strict, the sign of a sum of two numbers); no bound that rounding
  can turn into an equality is stated. Strings are \<^typ>\<open>string\<close>; all string
  constants of the source are ASCII.
\<close>

text \<open>
  Where a value that is not a number can reach the arithmetic (see \<open>lookup_or\<close> below), the
  result of the arithmetic is \<open>NaN\<close>. A number that may be \<open>NaN\<close> is a \<^typ>\<open>real option\<close>,
  \<open>None\<close> for \<open>NaN\<close>; arithmetic on it is \<^const>\<open>map_option\<close>, and the comparisons
  \<open>x < y\<close> and \<open>x <= y\<close> are false as soon as one side is \<open>NaN\<close>.
\<close>

definition nan_less :: "real option \<Rightarrow> real option \<Rightarrow> bool" where
  "nan_less x y =
     (case x of None \<Rightarrow> False | Some a \<Rightarrow> (case y of None \<Rightarrow> False | Some b \<Rightarrow> a < b))"


text \<open>
  \<open>s.replace(pat, rep)\<close> with a string pattern replaces the first occurrence of
  \<open>pat\<close> in \<open>s\<close> and leaves \<open>s\<close> unchanged when there is none. (The replacement
  strings of the source contain no \<open>$\<close> pattern.)
\<close>

fun replace_first :: "string \<Rightarrow> string \<Rightarrow> string \<Rightarrow> string" where
  "replace_first pat rep [] = (if pat = [] then rep else [])"
| "replace_first pat rep (c # cs) =
     (if take (length pat) (c # cs) = pat then rep @ drop (length pat) (c # cs)
      else c # replace_first pat rep cs)"

text \<open>\<open>s.split("-")[0]\<close>: the part of \<open>s\<close> before its first dash, all of \<open>s\<close> without one.\<close>

definition split_dash_first :: "string \<Rightarrow> string" where
  "split_dash_first s = takeWhile (\<lambda>c. c \<noteq> CHR ''-'') s"

section \<open>Symbol translation\<close>

text \<open>
  \<open>formatSymbolForVenue\<close> of the orderbook hook. A venue is the string the source
  switches on; any other string takes the \<open>default\<close> branch.
\<close>

definition formatSymbolForVenue :: "string \<Rightarrow> string \<Rightarrow> string" where
  "formatSymbolForVenue venue symbol =
     (if venue = ''OKX'' then replace_first ''USD'' ''USDT'' symbol
      else if venue = ''Bybit'' then replace_first ''USD'' ''USDT'' (replace_first ''-'' '''' symbol)
      else if venue = ''Deribit'' then split_dash_first symbol @ ''-PERPETUAL''
      else symbol)"

section \<open>Order impact estimator\<close>

record SimulatedOrder =
  order_id :: string
  order_venue :: string
  order_symbol :: string
  order_type :: string
  order_side :: string
  price :: real
  quantity :: real
  timing :: string
  order_timestamp :: real

record OrderMetrics =
  fillPercentage :: "real option"
  marketImpact :: "real option"
  slippage :: "real option"
  estimatedFillTime :: string
  warnings :: "string list"

text \<open>
  The property names that every object literal inherits from \<open>Object.prototype\<close>. Each of
  them reads as a function, \<open>__proto__\<close> as the prototype object: a truthy value that is
  not a number.
\<close>

definition inherited_keys :: "string list" where
  "inherited_keys =
     [''constructor'', ''hasOwnProperty'', ''isPrototypeOf'', ''propertyIsEnumerable'',
      ''toLocaleString'', ''toString'', ''valueOf'', ''__proto__'', ''__defineGetter__'',
      ''__defineSetter__'', ''__lookupGetter__'', ''__lookupSetter__'']"

text \<open>
  \<open>table[key] || dflt\<close> on an object literal of numbers, as a number. A key with an own
  entry gives the entry, or the default when the entry is zero. A key without own entry
  gives the default, unless it is an inherited key: then the expression is the inherited
  value, which is truthy and not a number. The source multiplies that value by a number,
  or adds a number to it and multiplies the string that results; either product is
  \<open>NaN\<close>, so the value is \<open>None\<close> here.
\<close>

definition lookup_or :: "(string \<times> real) list \<Rightarrow> string \<Rightarrow> real \<Rightarrow> real option" where
  "lookup_or table k dflt =
     (case map_of table k of
        Some v \<Rightarrow> Some (if v = 0 then dflt else v)
      | None \<Rightarrow> if k \<in> set inherited_keys then None else Some dflt)"

definition timingMultiplier :: "string \<Rightarrow> real option" where
  "timingMultiplier t =
     lookup_or [(''immediate'', 1.2), (''5s'', 1.0), (''10s'', 0.9), (''30s'', 0.8)] t 1.0"

text \<open>
  \<open>calculateOrderMetrics\<close>. \<open>Math.max(20, x)\<close> is \<open>NaN\<close> when \<open>x\<close> is; a comparison with
  \<open>NaN\<close> is false, so it pushes no warning.
\<close>

definition calculateOrderMetrics :: "SimulatedOrder \<Rightarrow> OrderMetrics" where
  "calculateOrderMetrics order =
     (let baseImpact = quantity order * 0.01;
          marketImpact = map_option (\<lambda>m. baseImpact * m) (timingMultiplier (timing order));
          fillPercentage = map_option (\<lambda>mi. max 20 (100 - mi * 10)) marketImpact;
          slippage = map_option (\<lambda>mi. mi * price order * 0.1) marketImpact;
          estimatedFillTime = (if timing order = ''immediate'' then ''<1s''
                               else replace_first ''s'' '''' (timing order) @ ''s'');
          w1 = (if nan_less (Some 1.5) marketImpact then [''High market impact detected''] else []);
          w2 = (if nan_less (Some (price order * 0.005)) slippage
                then [''Significant slippage expected''] else []);
          w3 = (if nan_less fillPercentage (Some 70) then [''Low fill probability''] else []);
          w4 = (if timing order \<noteq> ''immediate'' \<and> nan_less (Some 1.0) marketImpact
                then [''Consider immediate execution to reduce impact''] else [])
      in \<lparr> fillPercentage = fillPercentage, marketImpact = marketImpact, slippage = slippage,
           estimatedFillTime = estimatedFillTime, warnings = w1 @ w2 @ w3 @ w4 \<rparr>)"

section \<open>Synthetic data generator\<close>

text \<open>
  An Orderbook is the source's interface of that name. The type of a level is a parameter:
  the generator builds pairs of a price, which may be \<open>NaN\<close>, and a size; the venue parser
  returns whatever values the message held (see below).
\<close>

record 'l Orderbook =
  bids :: "'l list"
  asks :: "'l list"
  timestamp :: real

definition venueMultiplier :: "string \<Rightarrow> real option" where
  "venueMultiplier venue =
     lookup_or [(''OKX'', 1.0), (''Bybit'', 1.001), (''Deribit'', 0.999), (''Mock'', 1.0)] venue 1.0"

text \<open>
  The two loops of \<open>generateMockOrderbook\<close>. \<open>rnd k\<close> is the value of the \<open>k\<close>-th call
  of \<open>Math.random()\<close> made during the call of the generator, counted from 0: iteration
  \<open>i\<close> of the first loop makes the calls \<open>2 * i\<close> and \<open>2 * i + 1\<close>, iteration \<open>i\<close> of the
  second loop the calls \<open>50 + 2 * i\<close> and \<open>50 + 2 * i + 1\<close>. The price of a level is
  \<open>NaN\<close> when \<open>adjustedBasePrice\<close> is.
\<close>

function bid_loop ::
  "real option \<Rightarrow> (nat \<Rightarrow> real) \<Rightarrow> nat \<Rightarrow> (real option \<times> real) list
     \<Rightarrow> (real option \<times> real) list" where
  "bid_loop adjustedBasePrice rnd i bs =
     (if i < 25 then
        let priceOffset = (real i + 1) * (rnd (2 * i) * 5 + 2);
            price = map_option (\<lambda>a. a - priceOffset) adjustedBasePrice;
            size = rnd (2 * i + 1) * 3 + 0.1
        in bid_loop adjustedBasePrice rnd (i + 1) (bs @ [(price, size)])
      else bs)"
  by pat_completeness auto
termination
  by (relation "measure (\<lambda>(a, r, i, bs). 25 - i)") auto

function ask_loop ::
  "real option \<Rightarrow> (nat \<Rightarrow> real) \<Rightarrow> nat \<Rightarrow> (real option \<times> real) list
     \<Rightarrow> (real option \<times> real) list" where
  "ask_loop adjustedBasePrice rnd i as =
     (if i < 25 then
        let priceOffset = (real i + 1) * (rnd (50 + 2 * i) * 5 + 2);
            price = map_option (\<lambda>a. a + priceOffset) adjustedBasePrice;
            size = rnd (50 + 2 * i + 1) * 3 + 0.1
        in ask_loop adjustedBasePrice rnd (i + 1) (as @ [(price, size)])
      else as)"
  by pat_completeness auto
termination
  by (relation "measure (\<lambda>(a, r, i, as). 25 - i)") auto

declare bid_loop.simps [simp del] ask_loop.simps [simp del]

text \<open>
  \<open>xs.sort(cmp)\<close> is a stable sort by the sign of \<open>cmp\<close>, and it takes a result \<open>NaN\<close> of
  \<open>cmp\<close> for 0. The prices of one call are all numbers or all \<open>NaN\<close>, since each is
  \<open>adjustedBasePrice\<close> plus or minus a number. When they are numbers, the comparator
  \<open>(a, b) => b[0] - a[0]\<close> orders by descending price, which is the stable sort by the
  negated price, and \<open>(a, b) => a[0] - b[0]\<close> is the stable sort by the price. When they
  are \<open>NaN\<close>, every comparison is 0 and the list stays as it is, which is the stable sort
  by a constant key.
\<close>

definition bid_key :: "real option \<times> real \<Rightarrow> real" where
  "bid_key l = (case fst l of None \<Rightarrow> 0 | Some p \<Rightarrow> - p)"

definition ask_key :: "real option \<times> real \<Rightarrow> real" where
  "ask_key l = (case fst l of None \<Rightarrow> 0 | Some p \<Rightarrow> p)"

text \<open>
  \<open>generateMockOrderbook\<close>. \<open>basePrice\<close> is \<open>None\<close> when the caller passes a value whose
  product with a number is \<open>NaN\<close> (\<open>getMockOrderbookForVenue\<close> can, see below). \<open>now\<close> is
  the value of \<open>Date.now()\<close>. The defaults of the source's parameters (\<open>50000\<close>, \<open>"Mock"\<close>)
  are what a caller passes when it omits them.
\<close>

definition generateMockOrderbook ::
  "real option \<Rightarrow> string \<Rightarrow> (nat \<Rightarrow> real) \<Rightarrow> real \<Rightarrow> (real option \<times> real) Orderbook" where
  "generateMockOrderbook basePrice venue rnd now =
     (let adjustedBasePrice =
            (case basePrice of
               None \<Rightarrow> None
             | Some p \<Rightarrow> map_option (\<lambda>m. p * m) (venueMultiplier venue));
          bs = bid_loop adjustedBasePrice rnd 0 [];
          as = ask_loop adjustedBasePrice rnd 0 []
      in \<lparr> bids = sort_key bid_key bs, asks = sort_key ask_key as, timestamp = now \<rparr>)"

definition basePrices :: "(string \<times> real) list" where
  "basePrices =
     [(''BTC-USD'', 43000), (''ETH-USD'', 2500), (''BTC-USDT'', 43000), (''ETH-USDT'', 2500),
      (''BTCUSDT'', 43000), (''ETHUSDT'', 2500), (''BTC-PERPETUAL'', 43000),
      (''ETH-PERPETUAL'', 2500)]"

text \<open>
  \<open>getMockOrderbookForVenue\<close> makes one call of \<open>Math.random()\<close> itself, the first, and
  the generator makes the calls after it. For a symbol that is an inherited key,
  \<open>basePrice + priceVariation\<close> is a string that is no numeral, and the generator's
  product with it is \<open>NaN\<close>.
\<close>

definition getMockOrderbookForVenue ::
  "string \<Rightarrow> string \<Rightarrow> (nat \<Rightarrow> real) \<Rightarrow> real \<Rightarrow> (real option \<times> real) Orderbook" where
  "getMockOrderbookForVenue venue symbol rnd now =
     (let basePrice = lookup_or basePrices symbol 50000;
          priceVariation = (rnd 0 - 0.5) * 100;
          adjustedPrice = map_option (\<lambda>b. b + priceVariation) basePrice
      in generateMockOrderbook adjustedPrice venue (\<lambda>k. rnd (Suc k)) now)"


section \<open>Values of parsed messages\<close>

text \<open>
  The venue parser receives \<open>data: any\<close>, the result of \<open>JSON.parse\<close>. Its values are
  modelled as they are at run time. A number is a real or one of the three special
  values; an object is the list of its own properties (\<open>JSON.parse\<close> leaves one entry
  per key). Characters are ASCII.
\<close>

datatype number = NaN | NegInf | Fin real | PosInf

datatype jsval =
    JUndefined
  | JNull
  | JBool bool
  | JNum number
  | JStr string
  | JArr "jsval list"
  | JObj "(string \<times> jsval) list"

datatype js_error = TypeError

text \<open>Sequencing of steps that may throw: the first exception ends the evaluation.\<close>

definition bindE :: "js_error + 'a \<Rightarrow> ('a \<Rightarrow> js_error + 'b) \<Rightarrow> js_error + 'b" where
  "bindE m f = (case m of Inl e \<Rightarrow> Inl e | Inr x \<Rightarrow> f x)"

text \<open>The comparisons \<open>n > 0\<close> and \<open>a < b\<close> on numbers; every comparison with \<open>NaN\<close> is false.\<close>

fun num_gt0 :: "number \<Rightarrow> bool" where
  "num_gt0 (Fin r) = (0 < r)"
| "num_gt0 PosInf = True"
| "num_gt0 _ = False"

fun num_less :: "number \<Rightarrow> number \<Rightarrow> bool" where
  "num_less (Fin a) (Fin b) = (a < b)"
| "num_less NegInf (Fin b) = True"
| "num_less NegInf PosInf = True"
| "num_less (Fin a) PosInf = True"
| "num_less _ _ = False"

text \<open>Truthiness, as \<open>if\<close> and \<open>&&\<close> test it.\<close>

fun truthy :: "jsval \<Rightarrow> bool" where
  "truthy JUndefined = False"
| "truthy JNull = False"
| "truthy (JBool b) = b"
| "truthy (JNum n) = (n \<noteq> NaN \<and> n \<noteq> Fin 0)"
| "truthy (JStr s) = (s \<noteq> [])"
| "truthy (JArr xs) = True"
| "truthy (JObj kvs) = True"

text \<open>
  \<open>v.k\<close> for the property names the parser reads (\<open>data\<close>, \<open>bids\<close>, \<open>asks\<close>, \<open>b\<close>, \<open>a\<close>,
  \<open>topic\<close>, \<open>params\<close>): a TypeError on \<open>undefined\<close> and \<open>null\<close>, the own property of an
  object, \<open>undefined\<close> on every other value (no prototype has a property of these names).
\<close>

fun get_prop :: "jsval \<Rightarrow> string \<Rightarrow> js_error + jsval" where
  "get_prop JUndefined k = Inl TypeError"
| "get_prop JNull k = Inl TypeError"
| "get_prop (JObj kvs) k = Inr (case map_of kvs k of None \<Rightarrow> JUndefined | Some v \<Rightarrow> v)"
| "get_prop v k = Inr JUndefined"

fun is_array :: "jsval \<Rightarrow> bool" where
  "is_array (JArr xs) = True"
| "is_array v = False"

text \<open>\<open>xs[i]\<close> on an array and on a string (whose entries are its characters, as strings).\<close>

definition elem_at :: "jsval list \<Rightarrow> nat \<Rightarrow> jsval" where
  "elem_at xs i = (if i < length xs then xs ! i else JUndefined)"

definition char_at :: "string \<Rightarrow> nat \<Rightarrow> jsval" where
  "char_at s i = (if i < length s then JStr [s ! i] else JUndefined)"

fun index0 :: "jsval \<Rightarrow> jsval" where
  "index0 (JArr xs) = elem_at xs 0"
| "index0 (JStr s) = char_at s 0"
| "index0 v = JUndefined"

text \<open>
  \<open>t.includes("orderbook")\<close>: the substring test on a string, membership on an array, and
  a TypeError on every other truthy value, which has no callable \<open>includes\<close>.
\<close>

fun includes_str :: "string \<Rightarrow> string \<Rightarrow> bool" where
  "includes_str pat [] = (pat = [])"
| "includes_str pat (c # cs) = (take (length pat) (c # cs) = pat \<or> includes_str pat cs)"

fun js_includes :: "jsval \<Rightarrow> string \<Rightarrow> js_error + bool" where
  "js_includes (JStr s) pat = Inr (includes_str pat s)"
| "js_includes (JArr xs) pat = Inr (JStr pat \<in> set xs)"
| "js_includes v pat = Inl TypeError"

subsection \<open>Numbers from strings\<close>

definition is_ws :: "char \<Rightarrow> bool" where
  "is_ws c = (c \<in> set [CHR 0x20, CHR 0x09, CHR 0x0A, CHR 0x0B, CHR 0x0C, CHR 0x0D])"

definition is_digit :: "char \<Rightarrow> bool" where
  "is_digit c = (c \<in> set ''0123456789'')"

definition radix_val :: "char \<Rightarrow> nat" where
  "radix_val c =
     (if is_digit c then of_char c - 48
      else if c \<in> set ''abcdef'' then of_char c - 87
      else if c \<in> set ''ABCDEF'' then of_char c - 55
      else 16)"

definition digits_val :: "nat \<Rightarrow> string \<Rightarrow> nat" where
  "digits_val base ds = foldl (\<lambda>a c. base * a + radix_val c) 0 ds"

text \<open>An exponent part \<open>e\<close>, \<open>e+\<close> or \<open>e-\<close> with digits at the head of \<open>s\<close>: its value and the rest.\<close>

definition scan_exponent :: "string \<Rightarrow> int \<times> string" where
  "scan_exponent s =
     (case s of
        [] \<Rightarrow> (0, s)
      | c # t \<Rightarrow>
          if c = CHR ''e'' \<or> c = CHR ''E'' then
            (let neg = (t \<noteq> [] \<and> hd t = CHR ''-'');
                 u = (if t \<noteq> [] \<and> (hd t = CHR ''-'' \<or> hd t = CHR ''+'') then tl t else t);
                 ds = takeWhile is_digit u
             in if ds = [] then (0, s)
                else (if neg then - int (digits_val 10 ds) else int (digits_val 10 ds),
                      dropWhile is_digit u))
          else (0, s))"

text \<open>
  The longest prefix of \<open>s\<close> that is an unsigned decimal literal (digits, an optional
  fraction, an optional exponent; at least one digit before the exponent): its value and
  the rest of \<open>s\<close>.
\<close>

definition scan_decimal :: "string \<Rightarrow> (real \<times> string) option" where
  "scan_decimal s =
     (let ip = takeWhile is_digit s;
          r1 = dropWhile is_digit s;
          dot = (r1 \<noteq> [] \<and> hd r1 = CHR ''.'');
          fp = (if dot then takeWhile is_digit (tl r1) else []);
          r2 = (if dot then dropWhile is_digit (tl r1) else r1)
      in if ip = [] \<and> fp = [] then None
         else
           (let m = real (digits_val 10 ip) + real (digits_val 10 fp) / 10 ^ length fp;
                (e, r3) = scan_exponent r2
            in Some (if e < 0 then m / 10 ^ nat (- e) else m * 10 ^ nat e, r3)))"

definition split_sign :: "string \<Rightarrow> real \<times> string" where
  "split_sign s =
     (case s of
        [] \<Rightarrow> (1, s)
      | c # t \<Rightarrow> if c = CHR ''-'' then (- 1, t) else if c = CHR ''+'' then (1, t) else (1, s))"

text \<open>
  \<open>Number.parseFloat\<close> on a string: leading white space is skipped, then the longest
  prefix that is a signed decimal literal or \<open>Infinity\<close> gives the value; \<open>NaN\<close> when there
  is none.
\<close>

definition parseFloat_str :: "string \<Rightarrow> number" where
  "parseFloat_str s =
     (let (sgn, u) = split_sign (dropWhile is_ws s)
      in if take 8 u = ''Infinity'' then (if sgn < 0 then NegInf else PosInf)
         else (case scan_decimal u of None \<Rightarrow> NaN | Some (v, r) \<Rightarrow> Fin (sgn * v)))"

text \<open>A literal \<open>0x\<close>, \<open>0o\<close> or \<open>0b\<close> with digits of its base, and nothing else.\<close>

definition radix_literal :: "string \<Rightarrow> real option" where
  "radix_literal t =
     (case t of
        z # x # ds \<Rightarrow>
          (let base = (if x \<in> set ''xX'' then 16 else if x \<in> set ''oO'' then 8
                       else if x \<in> set ''bB'' then 2 else 0)
           in if z = CHR ''0'' \<and> base \<noteq> 0 \<and> ds \<noteq> [] \<and> list_all (\<lambda>c. radix_val c < base) ds
              then Some (real (digits_val base ds)) else None)
      | _ \<Rightarrow> None)"

text \<open>
  The conversion of a string to a number that a comparison with a number applies to it:
  white space is trimmed on both sides, the empty string is \<open>0\<close>, and the whole of what is
  left must be a literal.
\<close>

definition string_to_number :: "string \<Rightarrow> number" where
  "string_to_number s =
     (let t = rev (dropWhile is_ws (rev (dropWhile is_ws s)))
      in if t = [] then Fin 0
         else (case radix_literal t of
                 Some n \<Rightarrow> Fin n
               | None \<Rightarrow>
                   (let (sgn, u) = split_sign t
                    in if u = ''Infinity'' then (if sgn < 0 then NegInf else PosInf)
                       else (case scan_decimal u of
                               Some (v, []) \<Rightarrow> Fin (sgn * v)
                             | _ \<Rightarrow> NaN))))"

subsection \<open>Numbers from values\<close>

text \<open>
  Converting an object to a string or to a number calls its \<open>toString\<close>. A parsed object
  that has an own property \<open>toString\<close> (a value, so not callable) makes the conversion
  throw a TypeError; so does an array that holds such an object, since an array converts
  by joining the conversions of its elements.
\<close>

fun tostring_throws :: "jsval \<Rightarrow> bool" where
  "tostring_throws (JObj kvs) = (map_of kvs ''toString'' \<noteq> None)"
| "tostring_throws (JArr xs) = (\<exists>x \<in> set xs. tostring_throws x)"
| "tostring_throws v = False"

text \<open>
  \<open>Number.parseFloat(v)\<close> converts \<open>v\<close> to a string and reads a number at its head. The
  strings of \<open>undefined\<close>, \<open>null\<close>, a boolean and an object without own \<open>toString\<close> start
  with no number; the string of a number reads back as that number; the string of an array
  is the strings of its elements joined by commas, so it reads as its first element does,
  and as \<open>NaN\<close> when it is empty.
\<close>

fun parseFloat :: "jsval \<Rightarrow> js_error + number" where
  "parseFloat (JStr s) = Inr (parseFloat_str s)"
| "parseFloat (JNum n) = Inr n"
| "parseFloat (JObj kvs) = (if tostring_throws (JObj kvs) then Inl TypeError else Inr NaN)"
| "parseFloat (JArr []) = Inr NaN"
| "parseFloat (JArr (x # xs)) =
     (if tostring_throws (JArr (x # xs)) then Inl TypeError else parseFloat x)"
| "parseFloat v = Inr NaN"

text \<open>
  The number that \<open>v > 0\<close> compares: \<open>undefined\<close> is \<open>NaN\<close>, \<open>null\<close> and \<open>false\<close> are \<open>0\<close>,
  \<open>true\<close> is \<open>1\<close>, a string is converted as above, an object without own \<open>toString\<close> is
  \<open>NaN\<close>. An array goes through its string: the empty array is \<open>0\<close>, an array of one
  element is what the string of that element converts to (the empty string for
  \<open>undefined\<close> and \<open>null\<close>), and a longer array has a comma in its string and is \<open>NaN\<close>.
\<close>

fun to_number :: "jsval \<Rightarrow> js_error + number" where
  "to_number JUndefined = Inr NaN"
| "to_number JNull = Inr (Fin 0)"
| "to_number (JBool b) = Inr (Fin (if b then 1 else 0))"
| "to_number (JNum n) = Inr n"
| "to_number (JStr s) = Inr (string_to_number s)"
| "to_number (JObj kvs) = (if tostring_throws (JObj kvs) then Inl TypeError else Inr NaN)"
| "to_number (JArr []) = Inr (Fin 0)"
| "to_number (JArr [x]) =
     (if tostring_throws x then Inl TypeError
      else (case x of
              JUndefined \<Rightarrow> Inr (Fin 0)
            | JNull \<Rightarrow> Inr (Fin 0)
            | JBool b \<Rightarrow> Inr NaN
            | _ \<Rightarrow> to_number x))"
| "to_number (JArr (x # y # zs)) =
     (if tostring_throws (JArr (x # y # zs)) then Inl TypeError else Inr NaN)"

definition js_gt0 :: "jsval \<Rightarrow> js_error + bool" where
  "js_gt0 v = bindE (to_number v) (\<lambda>n. Inr (num_gt0 n))"

section \<open>Venue parser\<close>

text \<open>
  The parameter pattern \<open>[price, size]\<close> of the two callbacks: the first two elements of
  an array, the first two characters of a string, \<open>undefined\<close> for a missing one, and a
  TypeError on a value that is not iterable.
\<close>

fun destructure2 :: "jsval \<Rightarrow> js_error + (jsval \<times> jsval)" where
  "destructure2 (JArr xs) = Inr (elem_at xs 0, elem_at xs 1)"
| "destructure2 (JStr s) = Inr (char_at s 0, char_at s 1)"
| "destructure2 v = Inl TypeError"

text \<open>The callback of \<open>map\<close>: \<open>[Number.parseFloat(price), Number.parseFloat(size)]\<close>.\<close>

definition coerce_level :: "jsval \<Rightarrow> js_error + jsval" where
  "coerce_level l =
     bindE (destructure2 l) (\<lambda>(price, size).
     bindE (parseFloat price) (\<lambda>p.
     bindE (parseFloat size) (\<lambda>s. Inr (JArr [JNum p, JNum s]))))"

text \<open>The callback of \<open>filter\<close>: \<open>price > 0 && size > 0\<close>.\<close>

definition level_positive :: "jsval \<Rightarrow> js_error + bool" where
  "level_positive l =
     bindE (destructure2 l) (\<lambda>(price, size).
     bindE (js_gt0 price) (\<lambda>b. if b then js_gt0 size else Inr False))"

fun mapE :: "('a \<Rightarrow> js_error + 'b) \<Rightarrow> 'a list \<Rightarrow> js_error + 'b list" where
  "mapE f [] = Inr []"
| "mapE f (x # xs) = bindE (f x) (\<lambda>y. bindE (mapE f xs) (\<lambda>ys. Inr (y # ys)))"

fun filterE :: "('a \<Rightarrow> js_error + bool) \<Rightarrow> 'a list \<Rightarrow> js_error + 'a list" where
  "filterE p [] = Inr []"
| "filterE p (x # xs) =
     bindE (p x) (\<lambda>b. bindE (filterE p xs) (\<lambda>ys. Inr (if b then x # ys else ys)))"

text \<open>
  \<open>v.map(f)\<close> and \<open>v.filter(p)\<close> for a truthy \<open>v\<close>: only an array has these methods, on any
  other value the call is a TypeError.
\<close>

fun array_map :: "jsval \<Rightarrow> (jsval \<Rightarrow> js_error + jsval) \<Rightarrow> js_error + jsval list" where
  "array_map (JArr xs) f = mapE f xs"
| "array_map v f = Inl TypeError"

fun array_filter :: "jsval \<Rightarrow> (jsval \<Rightarrow> js_error + bool) \<Rightarrow> js_error + jsval list" where
  "array_filter (JArr xs) p = filterE p xs"
| "array_filter v p = Inl TypeError"

text \<open>\<open>v.map(...).filter(...).slice(0, 25)\<close> of OKX and Bybit, \<open>v.filter(...).slice(0, 25)\<close> of Deribit.\<close>

definition coerced_side :: "jsval \<Rightarrow> js_error + jsval list" where
  "coerced_side v =
     bindE (array_map v coerce_level) (\<lambda>ys.
     bindE (filterE level_positive ys) (\<lambda>zs. Inr (take 25 zs)))"

definition raw_side :: "jsval \<Rightarrow> js_error + jsval list" where
  "raw_side v = bindE (array_filter v level_positive) (\<lambda>zs. Inr (take 25 zs))"

text \<open>
  The three cases of the \<open>switch\<close>, inside the \<open>try\<close>. \<open>Inr None\<close> is a case that ends at
  its \<open>break\<close>, \<open>Inl\<close> an exception on the way.
\<close>

definition parse_OKX :: "jsval \<Rightarrow> real \<Rightarrow> js_error + jsval Orderbook option" where
  "parse_OKX data now =
     bindE (get_prop data ''data'') (\<lambda>d.
     if truthy d \<and> is_array d \<and> truthy (index0 d) then
       (let orderbookData = index0 d in
        bindE (get_prop orderbookData ''bids'') (\<lambda>b.
        if truthy b then
          bindE (get_prop orderbookData ''asks'') (\<lambda>a.
          if truthy a then
            bindE (coerced_side b) (\<lambda>bs.
            bindE (coerced_side a) (\<lambda>as.
            Inr (Some \<lparr> bids = bs, asks = as, timestamp = now \<rparr>)))
          else Inr None)
        else Inr None))
     else Inr None)"

definition parse_Bybit :: "jsval \<Rightarrow> real \<Rightarrow> js_error + jsval Orderbook option" where
  "parse_Bybit data now =
     bindE (get_prop data ''topic'') (\<lambda>t.
     if truthy t then
       bindE (js_includes t ''orderbook'') (\<lambda>inc.
       if inc then
         bindE (get_prop data ''data'') (\<lambda>orderbookData.
         if truthy orderbookData then
           bindE (get_prop orderbookData ''b'') (\<lambda>b.
           if truthy b then
             bindE (get_prop orderbookData ''a'') (\<lambda>a.
             if truthy a then
               bindE (coerced_side b) (\<lambda>bs.
               bindE (coerced_side a) (\<lambda>as.
               Inr (Some \<lparr> bids = bs, asks = as, timestamp = now \<rparr>)))
             else Inr None)
           else Inr None)
         else Inr None)
       else Inr None)
     else Inr None)"

definition parse_Deribit :: "jsval \<Rightarrow> real \<Rightarrow> js_error + jsval Orderbook option" where
  "parse_Deribit data now =
     bindE (get_prop data ''params'') (\<lambda>params.
     if truthy params then
       bindE (get_prop params ''data'') (\<lambda>orderbookData.
       if truthy orderbookData then
         bindE (get_prop orderbookData ''bids'') (\<lambda>b.
         if truthy b then
           bindE (get_prop orderbookData ''asks'') (\<lambda>a.
           if truthy a then
             bindE (raw_side b) (\<lambda>bs.
             bindE (raw_side a) (\<lambda>as.
             Inr (Some \<lparr> bids = bs, asks = as, timestamp = now \<rparr>)))
           else Inr None)
         else Inr None)
       else Inr None)
     else Inr None)"

text \<open>
  \<open>parseOrderbookData\<close>: the \<open>catch\<close> logs the exception and the function returns \<open>null\<close>
  after it, as it does after a \<open>break\<close>. \<open>now\<close> is the value of \<open>Date.now()\<close>.
\<close>

definition parseOrderbookData :: "string \<Rightarrow> jsval \<Rightarrow> real \<Rightarrow> jsval Orderbook option" where
  "parseOrderbookData venue data now =
     (case (if venue = ''OKX'' then parse_OKX data now
            else if venue = ''Bybit'' then parse_Bybit data now
            else if venue = ''Deribit'' then parse_Deribit data now
            else Inr None) of
        Inl e \<Rightarrow> None
      | Inr r \<Rightarrow> r)"

subsection \<open>What the claims say of a parsed book\<close>

text \<open>A level as the data model has it: a pair of numbers, both above zero.\<close>

fun positive_pair :: "jsval \<Rightarrow> bool" where
  "positive_pair (JArr [JNum p, JNum s]) = (num_gt0 p \<and> num_gt0 s)"
| "positive_pair v = False"

text \<open>
  The price of a level is the number its first component compares as (\<open>NaN\<close> for a level
  that has none). Levels are in strict order when each price is strictly beyond the ones
  after it.
\<close>

definition level_price :: "jsval \<Rightarrow> number" where
  "level_price l =
     (case destructure2 l of
        Inl e \<Rightarrow> NaN
      | Inr (p, s) \<Rightarrow> (case to_number p of Inl e \<Rightarrow> NaN | Inr n \<Rightarrow> n))"

definition descending_by :: "('a \<Rightarrow> number) \<Rightarrow> 'a list \<Rightarrow> bool" where
  "descending_by f ls = sorted_wrt (\<lambda>a b. num_less (f b) (f a)) ls"

definition ascending_by :: "('a \<Rightarrow> number) \<Rightarrow> 'a list \<Rightarrow> bool" where
  "ascending_by f ls = sorted_wrt (\<lambda>a b. num_less (f a) (f b)) ls"

text \<open>
  The levels of a message, as its venue's case reads them: \<open>data.data[0].bids\<close> and
  \<open>.asks\<close> for OKX, \<open>data.data.b\<close> and \<open>.a\<close> for Bybit, \<open>data.params.data.bids\<close> and
  \<open>.asks\<close> for Deribit; no levels where the path does not lead to an array. The price of
  a level of the message is the price of what the venue's case makes of it: the coerced
  level for OKX and Bybit, the level itself for Deribit.
\<close>

definition field :: "jsval \<Rightarrow> string \<Rightarrow> jsval" where
  "field v k = (case get_prop v k of Inl e \<Rightarrow> JUndefined | Inr x \<Rightarrow> x)"

fun elements :: "jsval \<Rightarrow> jsval list" where
  "elements (JArr xs) = xs"
| "elements v = []"

definition message_book :: "string \<Rightarrow> jsval \<Rightarrow> jsval" where
  "message_book venue data =
     (if venue = ''OKX'' then index0 (field data ''data'')
      else if venue = ''Bybit'' then field data ''data''
      else if venue = ''Deribit'' then field (field data ''params'') ''data''
      else JUndefined)"

definition message_bids :: "string \<Rightarrow> jsval \<Rightarrow> jsval list" where
  "message_bids venue data =
     elements (field (message_book venue data) (if venue = ''Bybit'' then ''b'' else ''bids''))"

definition message_asks :: "string \<Rightarrow> jsval \<Rightarrow> jsval list" where
  "message_asks venue data =
     elements (field (message_book venue data) (if venue = ''Bybit'' then ''a'' else ''asks''))"

definition message_price :: "string \<Rightarrow> jsval \<Rightarrow> number" where
  "message_price venue l =
     (if venue = ''Deribit'' then level_price l
      else (case coerce_level l of Inl e \<Rightarrow> NaN | Inr c \<Rightarrow> level_price c))"

section \<open>Connection supervisor\<close>

text \<open>
  The hook \<open>useOrderbookData\<close> keeps three pieces of React state (\<open>orderbooks\<close>,
  \<open>connectionStatus\<close>, \<open>error\<close>) and three registries (\<open>websockets\<close>,
  \<open>reconnectTimeouts\<close>, \<open>heartbeatIntervals\<close>). Its code runs in callbacks that the host
  calls: timers and the events of a transport. The model is one state, holding the hook's
  state and what the host holds for it (the ready state of every transport, the pending
  timers, the messages sent), and one function per callback. A state update
  \<open>setX((prev) => ...)\<close> is applied where the source calls it.
\<close>

datatype readyState = CONNECTING | OPEN | CLOSING | CLOSED

datatype ConnectionStatus = Connected | Connecting | Disconnected | Error

text \<open>
  The callbacks given to \<open>setTimeout\<close> and \<open>setInterval\<close>, each with the variables its
  closure holds: the connect timeout (transport, venue, symbol), the synthetic refresh, the
  reconnection, and the heartbeat (transport, venue).
\<close>

datatype callback =
    ConnectionTimeout nat string string
  | MockRefresh string string
  | Reconnect string string
  | HeartbeatTick nat string

record timer =
  timer_id :: nat
  delay :: nat
  repeating :: bool
  callback :: callback

text \<open>A message given to \<open>ws.send\<close>: the venue's subscription for a symbol, or its ping.\<close>

datatype message = Subscribe string string | Ping string

record hook_state =
  orderbooks :: "string \<Rightarrow> (real option \<times> real) Orderbook option"
  connectionStatus :: "string \<rightharpoonup> ConnectionStatus"
  error :: "string option"
  websockets :: "string \<rightharpoonup> nat"
  reconnectTimeouts :: "string \<rightharpoonup> nat"
  heartbeatIntervals :: "string \<rightharpoonup> nat"
  readyState :: "nat \<Rightarrow> readyState"
  handlers :: "nat \<rightharpoonup> string \<times> string \<times> nat"
  sockets_made :: nat
  timers :: "timer list"
  timers_made :: nat
  sent :: "(nat \<times> message) list"

text \<open>
  What the host decides during one callback: whether \<open>new WebSocket\<close> throws, whether
  \<open>ws.send\<close> throws, the values of \<open>Math.random()\<close> and the value of \<open>Date.now()\<close>.
\<close>

record env =
  ctor_throws :: bool
  send_throws :: bool
  env_rnd :: "nat \<Rightarrow> real"
  env_now :: real

text \<open>The state when the hook is first rendered: no book, every venue disconnected.\<close>

definition initial_state :: hook_state where
  "initial_state =
     \<lparr> orderbooks = (\<lambda>v. None),
       connectionStatus = [''OKX'' \<mapsto> Disconnected, ''Bybit'' \<mapsto> Disconnected,
                           ''Deribit'' \<mapsto> Disconnected],
       error = None, websockets = Map.empty, reconnectTimeouts = Map.empty,
       heartbeatIntervals = Map.empty, readyState = (\<lambda>w. CLOSED), handlers = Map.empty,
       sockets_made = 0, timers = [], timers_made = 0, sent = [] \<rparr>"

subsection \<open>The host's timers and transports\<close>

text \<open>
  \<open>setTimeout\<close> and \<open>setInterval\<close> register a timer and return its handle, a fresh positive
  number; \<open>clearTimeout\<close> and \<open>clearInterval\<close> remove the timer of a handle (either clears
  both kinds). \<open>ws.close()\<close> starts closing a transport that is not closed; the close event
  comes later.
\<close>

definition setTimeout :: "callback \<Rightarrow> nat \<Rightarrow> hook_state \<Rightarrow> nat \<times> hook_state" where
  "setTimeout cb ms s =
     (let h = Suc (timers_made s)
      in (h, s\<lparr> timers := timers s @ [\<lparr> timer_id = h, delay = ms, repeating = False, callback = cb \<rparr>],
               timers_made := h \<rparr>))"

definition setInterval :: "callback \<Rightarrow> nat \<Rightarrow> hook_state \<Rightarrow> nat \<times> hook_state" where
  "setInterval cb ms s =
     (let h = Suc (timers_made s)
      in (h, s\<lparr> timers := timers s @ [\<lparr> timer_id = h, delay = ms, repeating = True, callback = cb \<rparr>],
               timers_made := h \<rparr>))"

definition clearTimer :: "nat \<Rightarrow> hook_state \<Rightarrow> hook_state" where
  "clearTimer h s = s\<lparr> timers := filter (\<lambda>t. timer_id t \<noteq> h) (timers s) \<rparr>"

definition ws_close :: "nat \<Rightarrow> hook_state \<Rightarrow> hook_state" where
  "ws_close w s =
     s\<lparr> readyState := (readyState s)(w := (if readyState s w = CLOSED then CLOSED else CLOSING)) \<rparr>"

text \<open>\<open>ws.send(m)\<close> inside a \<open>try\<close>: whether it threw, and the state with the message sent if not.\<close>

definition ws_send :: "nat \<Rightarrow> message \<Rightarrow> env \<Rightarrow> hook_state \<Rightarrow> bool \<times> hook_state" where
  "ws_send w m e s = (if send_throws e then (True, s) else (False, s\<lparr> sent := sent s @ [(w, m)] \<rparr>))"

subsection \<open>The hook's functions\<close>

definition set_status :: "string \<Rightarrow> ConnectionStatus \<Rightarrow> hook_state \<Rightarrow> hook_state" where
  "set_status venue st s = s\<lparr> connectionStatus := (connectionStatus s)(venue \<mapsto> st) \<rparr>"

definition set_orderbook :: "string \<Rightarrow> (real option \<times> real) Orderbook \<Rightarrow> hook_state \<Rightarrow> hook_state" where
  "set_orderbook venue ob s = s\<lparr> orderbooks := (orderbooks s)(venue := Some ob) \<rparr>"

definition connection_key :: "string \<Rightarrow> string \<Rightarrow> string" where
  "connection_key venue symbol = venue @ ''-'' @ symbol"

text \<open>
  \<open>createWebSocket\<close>: the new transport, connecting, or \<open>null\<close> with the venue's status
  set to \<open>error\<close> when the constructor throws.
\<close>

definition createWebSocket :: "string \<Rightarrow> string \<Rightarrow> env \<Rightarrow> hook_state \<Rightarrow> nat option \<times> hook_state" where
  "createWebSocket url venue e s =
     (if ctor_throws e then (None, set_status venue Error s)
      else (let w = Suc (sockets_made s)
            in (Some w, s\<lparr> readyState := (readyState s)(w := CONNECTING), sockets_made := w \<rparr>)))"

text \<open>The \<open>switch\<close> of \<open>connectToVenue\<close>: the endpoint of a venue, \<open>None\<close> where it throws.\<close>

definition wsUrl :: "string \<Rightarrow> string option" where
  "wsUrl venue =
     (if venue = ''OKX'' then Some ''wss://ws.okx.com:8443/ws/v5/public''
      else if venue = ''Bybit'' then Some ''wss://stream.bybit.com/v5/public/spot''
      else if venue = ''Deribit'' then Some ''wss://www.deribit.com/ws/api/v2''
      else None)"

text \<open>
  The first part of \<open>connectToVenue\<close> (\<open>Clean up existing connection\<close>), for the key of
  the connection: the transport filed under the key is closed and removed, the heartbeat
  filed under it is cleared and removed, and so is the reconnection. A registry entry that
  is present is truthy (a handle is a positive number or an object).
\<close>

definition cleanup_existing :: "string \<Rightarrow> hook_state \<Rightarrow> hook_state" where
  "cleanup_existing key s0 =
     (let s1 = (case websockets s0 key of
                  None \<Rightarrow> s0
                | Some w \<Rightarrow> (ws_close w s0)\<lparr> websockets := (websockets s0)(key := None) \<rparr>);
          s2 = (case heartbeatIntervals s1 key of
                  None \<Rightarrow> s1
                | Some h \<Rightarrow> (clearTimer h s1)\<lparr> heartbeatIntervals := (heartbeatIntervals s1)(key := None) \<rparr>)
      in case reconnectTimeouts s2 key of
           None \<Rightarrow> s2
         | Some h \<Rightarrow> (clearTimer h s2)\<lparr> reconnectTimeouts := (reconnectTimeouts s2)(key := None) \<rparr>)"

text \<open>
  \<open>connectToVenue\<close>. After the clean-up the status is \<open>connecting\<close>. In the \<open>try\<close>, only
  the \<open>default\<close> case of the \<open>switch\<close> throws; the \<open>catch\<close> sets the status and the error
  and stores one synthetic book. When \<open>createWebSocket\<close> returns \<open>null\<close> the function
  returns at once. Otherwise it arms the connect timeout of 15000 ms and installs the
  transport's handlers, which are recorded with what their closures hold: venue, symbol
  and the handle of the connect timeout.
\<close>

definition connectToVenue :: "string \<Rightarrow> string \<Rightarrow> env \<Rightarrow> hook_state \<Rightarrow> hook_state" where
  "connectToVenue venue symbol e s0 =
     (let key = connection_key venue symbol;
          s3 = cleanup_existing key s0;
          s4 = set_status venue Connecting s3
      in case wsUrl venue of
           None \<Rightarrow>
             set_orderbook venue (getMockOrderbookForVenue venue symbol (env_rnd e) (env_now e))
               ((set_status venue Error s4)
                  \<lparr> error := Some (''Failed to connect to '' @ venue @ '': Unsupported venue: '' @ venue) \<rparr>)
         | Some url \<Rightarrow>
             (case createWebSocket url venue e s4 of
                (None, s5) \<Rightarrow> s5
              | (Some ws, s5) \<Rightarrow>
                  (let (connectionTimeout, s6) = setTimeout (ConnectionTimeout ws venue symbol) 15000 s5
                   in s6\<lparr> handlers := (handlers s6)(ws \<mapsto> (venue, symbol, connectionTimeout)),
                          websockets := (websockets s6)(key \<mapsto> ws) \<rparr>)))"

text \<open>
  The callback of the connect timeout: when the transport is not open it closes it, sets the
  status to \<open>connected\<close>, stores a synthetic book and starts the refresh every 2000 ms, whose
  handle it files under the key with \<open>-mock\<close> appended. The draws of the first book are the
  host's draws of this callback.
\<close>

definition connectionTimeout_fired :: "nat \<Rightarrow> string \<Rightarrow> string \<Rightarrow> env \<Rightarrow> hook_state \<Rightarrow> hook_state" where
  "connectionTimeout_fired ws venue symbol e s =
     (if readyState s ws \<noteq> OPEN then
        (let s1 = ws_close ws s;
             s2 = set_status venue Connected s1;
             s3 = set_orderbook venue (getMockOrderbookForVenue venue symbol (env_rnd e) (env_now e)) s2;
             (mockInterval, s4) = setInterval (MockRefresh venue symbol) 2000 s3
         in s4\<lparr> reconnectTimeouts :=
                  (reconnectTimeouts s4)(connection_key venue symbol @ ''-mock'' \<mapsto> mockInterval) \<rparr>)
      else s)"

definition mockRefresh_fired :: "string \<Rightarrow> string \<Rightarrow> env \<Rightarrow> hook_state \<Rightarrow> hook_state" where
  "mockRefresh_fired venue symbol e s =
     set_orderbook venue (getMockOrderbookForVenue venue symbol (env_rnd e) (env_now e)) s"

text \<open>
  The callback of the heartbeat, every 30000 ms: a ping on an open transport, and the
  interval cleared when the transport is not open or the send throws. \<open>h\<close> is the handle
  of the interval itself.
\<close>

definition heartbeat_fired :: "nat \<Rightarrow> nat \<Rightarrow> string \<Rightarrow> env \<Rightarrow> hook_state \<Rightarrow> hook_state" where
  "heartbeat_fired h ws venue e s =
     (if readyState s ws = OPEN then
        (if venue = ''OKX'' \<or> venue = ''Bybit'' \<or> venue = ''Deribit'' then
           (case ws_send ws (Ping venue) e s of
              (True, s1) \<Rightarrow> clearTimer h s1
            | (False, s1) \<Rightarrow> s1)
         else s)
      else clearTimer h s)"

definition setupHeartbeat :: "nat \<Rightarrow> string \<Rightarrow> string \<Rightarrow> hook_state \<Rightarrow> hook_state" where
  "setupHeartbeat ws venue key s =
     (let (interval, s1) = setInterval (HeartbeatTick ws venue) 30000 s
      in s1\<lparr> heartbeatIntervals := (heartbeatIntervals s1)(key \<mapsto> interval) \<rparr>)"

text \<open>
  The handlers of a transport, for the closure \<open>(venue, symbol, connectionTimeout)\<close>.
  \<open>onmessage\<close>, which writes parsed books to the store, is not part of this model.
\<close>

definition onopen :: "nat \<Rightarrow> string \<times> string \<times> nat \<Rightarrow> env \<Rightarrow> hook_state \<Rightarrow> hook_state" where
  "onopen ws c e s =
     (case c of (venue, symbol, connectionTimeout) \<Rightarrow>
        (let s1 = clearTimer connectionTimeout s;
             s2 = (set_status venue Connected s1)\<lparr> error := None \<rparr>;
             s3 = snd (ws_send ws (Subscribe venue (formatSymbolForVenue venue symbol)) e s2)
         in setupHeartbeat ws venue (connection_key venue symbol) s3))"

definition onerror :: "nat \<Rightarrow> string \<times> string \<times> nat \<Rightarrow> hook_state \<Rightarrow> hook_state" where
  "onerror ws c s =
     (case c of (venue, symbol, connectionTimeout) \<Rightarrow>
        (set_status venue Error s)
          \<lparr> error := Some (venue @ '' connection failed. Using mock data for demonstration.'') \<rparr>)"

definition onclose :: "nat \<Rightarrow> string \<times> string \<times> nat \<Rightarrow> nat \<Rightarrow> hook_state \<Rightarrow> hook_state" where
  "onclose ws c code s =
     (case c of (venue, symbol, connectionTimeout) \<Rightarrow>
        (let key = connection_key venue symbol;
             s1 = set_status venue Disconnected s;
             s2 = (case heartbeatIntervals s1 key of
                     None \<Rightarrow> s1
                   | Some h \<Rightarrow> (clearTimer h s1)\<lparr> heartbeatIntervals := (heartbeatIntervals s1)(key := None) \<rparr>)
         in if code \<noteq> 1000 \<and> code \<noteq> 1001 then
              (let (h, s3) = setTimeout (Reconnect venue symbol) 5000 s2
               in s3\<lparr> reconnectTimeouts := (reconnectTimeouts s3)(key \<mapsto> h) \<rparr>)
            else s2))"

subsection \<open>What the host does with them\<close>

text \<open>
  A timer that fires runs its callback; a timeout is gone once it has fired, an interval
  stays. An event of a transport sets its ready state and runs the handler installed for
  it, if any.
\<close>

fun run_callback :: "nat \<Rightarrow> callback \<Rightarrow> env \<Rightarrow> hook_state \<Rightarrow> hook_state" where
  "run_callback h (ConnectionTimeout ws venue symbol) e s = connectionTimeout_fired ws venue symbol e s"
| "run_callback h (MockRefresh venue symbol) e s = mockRefresh_fired venue symbol e s"
| "run_callback h (Reconnect venue symbol) e s = connectToVenue venue symbol e s"
| "run_callback h (HeartbeatTick ws venue) e s = heartbeat_fired h ws venue e s"

definition fire :: "timer \<Rightarrow> env \<Rightarrow> hook_state \<Rightarrow> hook_state" where
  "fire t e s =
     run_callback (timer_id t) (callback t) e (if repeating t then s else clearTimer (timer_id t) s)"

definition open_event :: "nat \<Rightarrow> env \<Rightarrow> hook_state \<Rightarrow> hook_state" where
  "open_event ws e s =
     (let s1 = s\<lparr> readyState := (readyState s)(ws := OPEN) \<rparr>
      in case handlers s ws of None \<Rightarrow> s1 | Some c \<Rightarrow> onopen ws c e s1)"

definition error_event :: "nat \<Rightarrow> hook_state \<Rightarrow> hook_state" where
  "error_event ws s = (case handlers s ws of None \<Rightarrow> s | Some c \<Rightarrow> onerror ws c s)"

definition close_event :: "nat \<Rightarrow> nat \<Rightarrow> hook_state \<Rightarrow> hook_state" where
  "close_event ws code s =
     (let s1 = s\<lparr> readyState := (readyState s)(ws := CLOSED) \<rparr>
      in case handlers s ws of None \<Rightarrow> s1 | Some c \<Rightarrow> onclose ws c code s1)"

subsection \<open>Runs of the host\<close>

text \<open>
  What the host can do to the hook: call \<open>connectToVenue\<close> (the effect of the hook does
  so for every venue), fire a pending timer, and deliver an event of a transport; it opens
  a transport only while that is connecting. A run is a list of such steps, each with what
  the host decides during it. (The messages of a transport and the clean-up when the hook
  is unmounted are not among the steps.)
\<close>

datatype event =
    Connect string string
  | TimerFires timer
  | OpenEvent nat
  | ErrorEvent nat
  | CloseEvent nat nat

definition step :: "event \<Rightarrow> env \<Rightarrow> hook_state \<Rightarrow> hook_state" where
  "step ev e s =
     (case ev of
        Connect venue symbol \<Rightarrow> connectToVenue venue symbol e s
      | TimerFires t \<Rightarrow> if t \<in> set (timers s) then fire t e s else s
      | OpenEvent ws \<Rightarrow> if readyState s ws = CONNECTING then open_event ws e s else s
      | ErrorEvent ws \<Rightarrow> error_event ws s
      | CloseEvent ws code \<Rightarrow> close_event ws code s)"

fun run :: "(event \<times> env) list \<Rightarrow> hook_state \<Rightarrow> hook_state" where
  "run [] s = s"
| "run ((ev, e) # evs) s = run evs (step ev e s)"

text \<open>
  Two properties of states. In a state of a run from the first render every handle in use
  has been issued: no pending timer, registry entry or handler holds a handle above the
  last one made. A connect timeout \<open>t\<close> of a transport \<open>ws\<close> is safe when it is pending, the
  transport is not open, and nothing but the open handler of \<open>ws\<close> holds its handle.
\<close>

definition handles_issued :: "hook_state \<Rightarrow> bool" where
  "handles_issued s \<longleftrightarrow>
     (\<forall>t \<in> set (timers s). timer_id t \<le> timers_made s)
     \<and> (\<forall>k h. heartbeatIntervals s k = Some h \<longrightarrow> h \<le> timers_made s)
     \<and> (\<forall>k h. reconnectTimeouts s k = Some h \<longrightarrow> h \<le> timers_made s)
     \<and> (\<forall>w v y ct. handlers s w = Some (v, y, ct) \<longrightarrow> ct \<le> timers_made s)"

definition timeout_pending :: "nat \<Rightarrow> timer \<Rightarrow> hook_state \<Rightarrow> bool" where
  "timeout_pending ws t s \<longleftrightarrow>
     t \<in> set (timers s) \<and> readyState s ws \<noteq> OPEN \<and> timer_id t \<le> timers_made s
     \<and> (\<forall>u \<in> set (timers s). timer_id u = timer_id t \<longrightarrow> u = t)
     \<and> (\<forall>k. heartbeatIntervals s k \<noteq> Some (timer_id t))
     \<and> (\<forall>k. reconnectTimeouts s k \<noteq> Some (timer_id t))
     \<and> (\<forall>w v y. handlers s w = Some (v, y, timer_id t) \<longrightarrow> w = ws)"

section \<open>Concrete inputs\<close>

text \<open>
  Inputs at which the theorems below are evaluated: two sequences of draws in \<open>[0, 1)\<close>,
  the second one giving the first two bid levels the same offset (\<open>1 * (0.8 * 5 + 2)\<close> and
  \<open>2 * (0.2 * 5 + 2)\<close>); and two hosts, one whose \<open>WebSocket\<close> constructor throws.
\<close>

definition half_draws :: "nat \<Rightarrow> real" where
  "half_draws k = 1 / 2"

definition tie_draws :: "nat \<Rightarrow> real" where
  "tie_draws k = (if k = 0 then 0.8 else if k = 2 then 0.2 else 0.9)"

definition ok_env :: env where
  "ok_env = \<lparr> ctor_throws = False, send_throws = False, env_rnd = half_draws, env_now = 0 \<rparr>"

definition failing_env :: env where
  "failing_env = \<lparr> ctor_throws = True, send_throws = False, env_rnd = half_draws, env_now = 0 \<rparr>"

text \<open>
  Four messages. An OKX message \<open>{"data": [{"bids": [["3","1"],["2","1"]], "asks":
  [["4","1"],["5","2"]]}]}\<close> with its levels in order; an OKX message with the bids
  \<open>[["1","1"],["2","1"]]\<close> ascending and the asks \<open>[["2","1"],["1","1"]]\<close> descending; a
  Deribit message \<open>{"params": {"data": {"bids": [[95, 1], [0, 2]], "asks": [[96, 2]]}}}\<close>
  whose second bid level has the price 0; and a Deribit message \<open>{"params": {"data":
  {"bids": ["95", [true, true]], "asks": []}}}\<close> whose bid levels are a string and a pair
  of booleans.
\<close>

definition okx_message :: "jsval list \<Rightarrow> jsval list \<Rightarrow> jsval" where
  "okx_message bs as = JObj [(''data'', JArr [JObj [(''bids'', JArr bs), (''asks'', JArr as)]])]"

definition okx_ordered :: jsval where
  "okx_ordered =
     okx_message [JArr [JStr ''3'', JStr ''1''], JArr [JStr ''2'', JStr ''1'']]
                 [JArr [JStr ''4'', JStr ''1''], JArr [JStr ''5'', JStr ''2'']]"

definition okx_unordered :: jsval where
  "okx_unordered =
     okx_message [JArr [JStr ''1'', JStr ''1''], JArr [JStr ''2'', JStr ''1'']]
                 [JArr [JStr ''2'', JStr ''1''], JArr [JStr ''1'', JStr ''1'']]"

definition deribit_update :: jsval where
  "deribit_update =
     JObj [(''params'', JObj [(''data'',
       JObj [(''bids'', JArr [JArr [JNum (Fin 95), JNum (Fin 1)], JArr [JNum (Fin 0), JNum (Fin 2)]]),
             (''asks'', JArr [JArr [JNum (Fin 96), JNum (Fin 2)]])])])]"

definition deribit_malformed :: jsval where
  "deribit_malformed =
     JObj [(''params'', JObj [(''data'',
       JObj [(''bids'', JArr [JStr ''95'', JArr [JBool True, JBool True]]), (''asks'', JArr [])])])]"

section \<open>Properties of the symbol translation\<close>

text \<open>
  C10. For the symbols \<open>BTC-USDT\<close> and \<open>ETH-USDT\<close> the translation replaces the first
  occurrence of \<open>USD\<close>, not a suffix: OKX gives \<open>BTC-USDTT\<close> and \<open>ETH-USDTT\<close>, Bybit gives
  \<open>BTCUSDTT\<close> and \<open>ETHUSDTT\<close>.
\<close>

theorem formatSymbolForVenue_USDT:
  "formatSymbolForVenue ''OKX'' ''BTC-USDT'' = ''BTC-USDTT''
   \<and> formatSymbolForVenue ''OKX'' ''ETH-USDT'' = ''ETH-USDTT''
   \<and> formatSymbolForVenue ''Bybit'' ''BTC-USDT'' = ''BTCUSDTT''
   \<and> formatSymbolForVenue ''Bybit'' ''ETH-USDT'' = ''ETHUSDTT''"
  by (simp add: formatSymbolForVenue_def)

text \<open>The translations of \<open>BTC-USD\<close>, for comparison.\<close>

lemma formatSymbolForVenue_USD:
  "formatSymbolForVenue ''OKX'' ''BTC-USD'' = ''BTC-USDT''"
  "formatSymbolForVenue ''Bybit'' ''BTC-USD'' = ''BTCUSDT''"
  "formatSymbolForVenue ''Deribit'' ''BTC-USD'' = ''BTC-PERPETUAL''"
  by (simp_all add: formatSymbolForVenue_def split_dash_first_def)

section \<open>Properties of the order impact estimator\<close>

text \<open>
  C1, as the code computes it. For an order with quantity 1, price 100 and timing
  \<open>immediate\<close>, whatever its other fields, the market impact is 0.012, the slippage 0.12
  and there is no warning; the fill percentage is \<open>100 - 0.012 * 10 = 99.88\<close>.
\<close>

theorem calculateOrderMetrics_example:
  "calculateOrderMetrics
     \<lparr> order_id = i, order_venue = v, order_symbol = y, order_type = ty, order_side = sd,
       price = 100, quantity = 1, timing = ''immediate'', order_timestamp = ts \<rparr>
   = \<lparr> fillPercentage = Some 99.88, marketImpact = Some 0.012, slippage = Some 0.12,
       estimatedFillTime = ''<1s'', warnings = [] \<rparr>"
  by (simp add: calculateOrderMetrics_def timingMultiplier_def lookup_or_def nan_less_def Let_def)

text \<open>
  C1, as the claim states it, fails: the fill percentage of such an order is not 98.8.
\<close>

theorem calculateOrderMetrics_fill_not_98_8:
  "fillPercentage (calculateOrderMetrics
     \<lparr> order_id = ''sim-1'', order_venue = ''OKX'', order_symbol = ''BTC-USD'',
       order_type = ''limit'', order_side = ''buy'', price = 100, quantity = 1,
       timing = ''immediate'', order_timestamp = 0 \<rparr>) \<noteq> Some 98.8"
  by (simp add: calculateOrderMetrics_def timingMultiplier_def lookup_or_def nan_less_def Let_def)

text \<open>
  C9. The metrics are a function of the order alone (the function has no other argument,
  and nothing of the orderbook hook occurs in it), and of the order they use the quantity,
  the timing and the price only: two orders that agree on these three get the same metrics,
  whatever their venue, symbol, side, type, id and timestamp.
\<close>

theorem calculateOrderMetrics_depends_on:
  assumes "quantity a = quantity b" and "timing a = timing b" and "price a = price b"
  shows "calculateOrderMetrics a = calculateOrderMetrics b"
  using assms by (simp add: calculateOrderMetrics_def)

text \<open>C9 at two orders that differ in every other field.\<close>

theorem calculateOrderMetrics_depends_on_witness:
  "calculateOrderMetrics
     \<lparr> order_id = ''sim-1'', order_venue = ''OKX'', order_symbol = ''BTC-USD'',
       order_type = ''limit'', order_side = ''buy'', price = 250, quantity = 200,
       timing = ''5s'', order_timestamp = 1 \<rparr>
   = calculateOrderMetrics
     \<lparr> order_id = ''sim-2'', order_venue = ''Deribit'', order_symbol = ''ETH-USDT'',
       order_type = ''market'', order_side = ''sell'', price = 250, quantity = 200,
       timing = ''5s'', order_timestamp = 2 \<rparr>"
  by (rule calculateOrderMetrics_depends_on) simp_all


text \<open>
  For a timing that is an inherited key the multiplier is not a number: the three numbers
  of the metrics are \<open>NaN\<close> and no warning is pushed.
\<close>

lemma calculateOrderMetrics_inherited_timing:
  assumes "timing order \<in> set inherited_keys"
  shows "marketImpact (calculateOrderMetrics order) = None
       \<and> fillPercentage (calculateOrderMetrics order) = None
       \<and> slippage (calculateOrderMetrics order) = None
       \<and> warnings (calculateOrderMetrics order) = []"
proof -
  have "timingMultiplier (timing order) = None"
    using assms by (auto simp: timingMultiplier_def lookup_or_def inherited_keys_def)
  then show ?thesis
    by (simp add: calculateOrderMetrics_def Let_def nan_less_def)
qed

section \<open>Properties of the synthetic data generator\<close>

text \<open>
  The factor of a venue is a number, one of the three of the table, unless the venue is an
  inherited key; of an inherited key it is not a number.
\<close>

lemma venueMultiplier_number:
  "venue \<notin> set inherited_keys \<Longrightarrow> venueMultiplier venue \<noteq> None"
  by (simp add: venueMultiplier_def lookup_or_def del: not_None_eq)

lemma venueMultiplier_inherited:
  "venue \<in> set inherited_keys \<Longrightarrow> venueMultiplier venue = None"
  by (auto simp: venueMultiplier_def lookup_or_def inherited_keys_def)

lemma venueMultiplier_values:
  "venueMultiplier venue = Some m \<Longrightarrow> m = 1 \<or> m = 1.001 \<or> m = 0.999"
  by (auto simp: venueMultiplier_def lookup_or_def split: if_splits)

text \<open>The two loops, in closed form: one level for each index below 25, in index order.\<close>

lemma bid_loop_eq:
  "bid_loop a rnd i bs =
     bs @ map (\<lambda>j. (map_option (\<lambda>a. a - (real j + 1) * (rnd (2 * j) * 5 + 2)) a,
                     rnd (2 * j + 1) * 3 + 0.1)) [i..<25]"
proof (induction a rnd i bs rule: bid_loop.induct)
  case (1 a rnd i bs)
  show ?case
  proof (cases "i < 25")
    case True
    then have u: "[i..<25] = i # [i + 1..<25]"
      by (simp add: upt_conv_Cons)
    show ?thesis
      using True "1.IH"[OF True refl refl refl]
      by (subst bid_loop.simps) (simp add: Let_def u)
  next
    case False
    then show ?thesis
      by (subst bid_loop.simps) simp
  qed
qed

lemma ask_loop_eq:
  "ask_loop a rnd i bs =
     bs @ map (\<lambda>j. (map_option (\<lambda>a. a + (real j + 1) * (rnd (50 + 2 * j) * 5 + 2)) a,
                     rnd (50 + 2 * j + 1) * 3 + 0.1)) [i..<25]"
proof (induction a rnd i bs rule: ask_loop.induct)
  case (1 a rnd i bs)
  show ?case
  proof (cases "i < 25")
    case True
    then have u: "[i..<25] = i # [i + 1..<25]"
      by (simp add: upt_conv_Cons)
    show ?thesis
      using True "1.IH"[OF True refl refl refl]
      by (subst ask_loop.simps) (simp add: Let_def u)
  next
    case False
    then show ?thesis
      by (subst ask_loop.simps) simp
  qed
qed











text \<open>
  For a venue that is an inherited key, \<open>toString\<close> for one, the factor is not a number and
  every price of the book is \<open>NaN\<close>, whatever the reference price.
\<close>

lemma generateMockOrderbook_inherited_venue:
  assumes "venue \<in> set inherited_keys"
  shows "\<forall>l \<in> set (bids (generateMockOrderbook basePrice venue rnd now))
              \<union> set (asks (generateMockOrderbook basePrice venue rnd now)). fst l = None"
  using venueMultiplier_inherited[OF assms]
  by (auto simp: generateMockOrderbook_def Let_def bid_loop_eq ask_loop_eq split: option.split)



lemma tie_draws_range: "0 \<le> tie_draws k \<and> tie_draws k < 1"
  by (simp add: tie_draws_def)


section \<open>Properties of the venue parser\<close>

subsection \<open>Steps that did not throw\<close>

lemma bindE_Inr_iff: "bindE m f = Inr y \<longleftrightarrow> (\<exists>x. m = Inr x \<and> f x = Inr y)"
  by (cases m) (simp_all add: bindE_def)

lemma filterE_Inr:
  "filterE p xs = Inr zs \<Longrightarrow> zs = filter (\<lambda>x. p x = Inr True) xs"
proof (induction xs arbitrary: zs)
  case Nil
  then show ?case by simp
next
  case (Cons x xs)
  from Cons.prems obtain b ys where b: "p x = Inr b" and ys: "filterE p xs = Inr ys"
    and zs: "zs = (if b then x # ys else ys)"
    by (auto simp: bindE_Inr_iff)
  from Cons.IH[OF ys] b zs show ?case by auto
qed

lemma mapE_Inr:
  "mapE f xs = Inr ys \<Longrightarrow> list_all2 (\<lambda>x y. f x = Inr y) xs ys"
proof (induction xs arbitrary: ys)
  case Nil
  then show ?case by simp
next
  case (Cons x xs)
  from Cons.prems obtain y ys' where "f x = Inr y" "mapE f xs = Inr ys'" "ys = y # ys'"
    by (auto simp: bindE_Inr_iff)
  with Cons.IH show ?case by simp
qed

lemma list_all2_map_eq:
  "list_all2 (\<lambda>x y. f x = g y) xs ys \<Longrightarrow> map f xs = map g ys"
  by (induction xs ys rule: list_all2_induct) simp_all

lemma coerce_level_shape:
  "coerce_level l = Inr c \<Longrightarrow> \<exists>p s. c = JArr [JNum p, JNum s]"
  by (auto simp: coerce_level_def bindE_Inr_iff)

text \<open>On a level whose first two components are numbers the test is the comparison of numbers.\<close>

lemma level_positive_numeric:
  "level_positive (JArr (JNum p # JNum s # r)) = Inr (num_gt0 p \<and> num_gt0 s)"
  by (simp add: level_positive_def bindE_def js_gt0_def elem_at_def)

lemma level_price_numeric: "level_price (JArr (JNum p # r)) = p"
  by (simp add: level_price_def elem_at_def)

subsection \<open>A side of the book\<close>

lemma coerced_side_Inr:
  assumes "coerced_side v = Inr zs"
  shows "\<exists>xs ys. v = JArr xs \<and> list_all2 (\<lambda>x y. coerce_level x = Inr y) xs ys
           \<and> zs = take 25 (filter (\<lambda>y. level_positive y = Inr True) ys)"
proof -
  from assms obtain ys fs where m: "array_map v coerce_level = Inr ys"
    and f: "filterE level_positive ys = Inr fs" and z: "zs = take 25 fs"
    by (auto simp: coerced_side_def bindE_Inr_iff)
  from m obtain xs where v: "v = JArr xs" and mm: "mapE coerce_level xs = Inr ys"
    by (cases v) auto
  show ?thesis
    using v mapE_Inr[OF mm] filterE_Inr[OF f] z by blast
qed

lemma raw_side_Inr:
  assumes "raw_side v = Inr zs"
  shows "\<exists>xs. v = JArr xs \<and> zs = take 25 (filter (\<lambda>y. level_positive y = Inr True) xs)"
proof -
  from assms obtain fs where f: "array_filter v level_positive = Inr fs" and z: "zs = take 25 fs"
    by (auto simp: raw_side_def bindE_Inr_iff)
  from f obtain xs where v: "v = JArr xs" and ff: "filterE level_positive xs = Inr fs"
    by (cases v) auto
  show ?thesis
    using v filterE_Inr[OF ff] z by blast
qed

lemma coerced_side_levels:
  assumes "coerced_side v = Inr zs"
  shows "is_array v" and "length zs \<le> 25"
    and "\<forall>z \<in> set zs. positive_pair z \<and> level_positive z = Inr True"
proof -
  from coerced_side_Inr[OF assms] obtain xs ys where v: "v = JArr xs"
    and l: "list_all2 (\<lambda>x y. coerce_level x = Inr y) xs ys"
    and z: "zs = take 25 (filter (\<lambda>y. level_positive y = Inr True) ys)"
    by blast
  show "is_array v"
    using v by simp
  show "length zs \<le> 25"
    using z by simp
  show "\<forall>z \<in> set zs. positive_pair z \<and> level_positive z = Inr True"
  proof
    fix c assume "c \<in> set zs"
    then have c: "c \<in> set ys" "level_positive c = Inr True"
      using z by (auto dest: in_set_takeD)
    from c(1) l obtain x where "coerce_level x = Inr c"
      by (auto simp: list_all2_conv_all_nth in_set_conv_nth)
    then obtain p s where "c = JArr [JNum p, JNum s]"
      using coerce_level_shape by blast
    with c(2) show "positive_pair c \<and> level_positive c = Inr True"
      by (simp add: level_positive_numeric)
  qed
qed

lemma raw_side_levels:
  assumes "raw_side v = Inr zs"
  shows "is_array v" and "length zs \<le> 25" and "\<forall>z \<in> set zs. level_positive z = Inr True"
  using raw_side_Inr[OF assms] by (auto dest: in_set_takeD)

lemma raw_side_elements:
  assumes "raw_side v = Inr zs"
  shows "zs = take 25 (filter (\<lambda>y. level_positive y = Inr True) (elements v))"
  using raw_side_Inr[OF assms] by auto

lemma coerced_side_order:
  assumes c: "coerced_side v = Inr zs" and nd: "venue \<noteq> ''Deribit''"
    and s: "sorted_wrt (\<lambda>a b. R (message_price venue a) (message_price venue b)) (elements v)"
  shows "sorted_wrt (\<lambda>a b. R (level_price a) (level_price b)) zs"
proof -
  from coerced_side_Inr[OF c] obtain xs ys where v: "v = JArr xs"
    and l: "list_all2 (\<lambda>x y. coerce_level x = Inr y) xs ys"
    and z: "zs = take 25 (filter (\<lambda>y. level_positive y = Inr True) ys)"
    by blast
  have "list_all2 (\<lambda>x y. message_price venue x = level_price y) xs ys"
  proof (rule list_all2_mono[OF l])
    fix x y assume "coerce_level x = Inr y"
    then show "message_price venue x = level_price y"
      using nd by (simp add: message_price_def)
  qed
  then have m: "map (message_price venue) xs = map level_price ys"
    by (rule list_all2_map_eq)
  have "sorted_wrt R (map (message_price venue) xs)"
    using s v by (simp add: sorted_wrt_map)
  then have "sorted_wrt (\<lambda>a b. R (level_price a) (level_price b)) ys"
    by (simp add: m sorted_wrt_map)
  then show ?thesis
    unfolding z by (intro sorted_wrt_take sorted_wrt_filter)
qed

lemma raw_side_order:
  assumes c: "raw_side v = Inr zs"
    and s: "sorted_wrt (\<lambda>a b. R (message_price ''Deribit'' a) (message_price ''Deribit'' b)) (elements v)"
  shows "sorted_wrt (\<lambda>a b. R (level_price a) (level_price b)) zs"
proof -
  from raw_side_Inr[OF c] obtain xs where v: "v = JArr xs"
    and z: "zs = take 25 (filter (\<lambda>y. level_positive y = Inr True) xs)"
    by blast
  have "sorted_wrt (\<lambda>a b. R (level_price a) (level_price b)) xs"
    using s v by (simp add: message_price_def)
  then show ?thesis
    unfolding z by (intro sorted_wrt_take sorted_wrt_filter)
qed

subsection \<open>The three cases\<close>

lemma parse_OKX_Some:
  assumes "parse_OKX data now = Inr (Some ob)"
  shows "coerced_side (field (message_book ''OKX'' data) ''bids'') = Inr (bids ob)"
    and "coerced_side (field (message_book ''OKX'' data) ''asks'') = Inr (asks ob)"
    and "timestamp ob = now"
  using assms
  by (auto simp: parse_OKX_def bindE_Inr_iff Let_def field_def message_book_def split: if_splits)

lemma parse_Bybit_Some:
  assumes "parse_Bybit data now = Inr (Some ob)"
  shows "coerced_side (field (message_book ''Bybit'' data) ''b'') = Inr (bids ob)"
    and "coerced_side (field (message_book ''Bybit'' data) ''a'') = Inr (asks ob)"
    and "timestamp ob = now"
  using assms
  by (auto simp: parse_Bybit_def bindE_Inr_iff Let_def field_def message_book_def split: if_splits)

lemma parse_Deribit_Some:
  assumes "parse_Deribit data now = Inr (Some ob)"
  shows "raw_side (field (message_book ''Deribit'' data) ''bids'') = Inr (bids ob)"
    and "raw_side (field (message_book ''Deribit'' data) ''asks'') = Inr (asks ob)"
    and "timestamp ob = now"
  using assms
  by (auto simp: parse_Deribit_def bindE_Inr_iff Let_def field_def message_book_def split: if_splits)

lemma parse_Some_cases:
  assumes "parseOrderbookData venue data now = Some ob"
  shows "(venue = ''OKX'' \<and> parse_OKX data now = Inr (Some ob))
       \<or> (venue = ''Bybit'' \<and> parse_Bybit data now = Inr (Some ob))
       \<or> (venue = ''Deribit'' \<and> parse_Deribit data now = Inr (Some ob))"
  using assms by (auto simp: parseOrderbookData_def split: if_splits sum.splits)

text \<open>A venue that is none of the three has no case in the \<open>switch\<close>.\<close>

lemma parseOrderbookData_other_venue:
  "venue \<noteq> ''OKX'' \<Longrightarrow> venue \<noteq> ''Bybit'' \<Longrightarrow> venue \<noteq> ''Deribit''
     \<Longrightarrow> parseOrderbookData venue data now = None"
  by (simp add: parseOrderbookData_def)

lemma parse_order_bids:
  assumes p: "parseOrderbookData venue data now = Some ob"
    and s: "sorted_wrt (\<lambda>a b. R (message_price venue a) (message_price venue b))
              (message_bids venue data)"
  shows "sorted_wrt (\<lambda>a b. R (level_price a) (level_price b)) (bids ob)"
proof -
  consider (okx) "venue = ''OKX''" "parse_OKX data now = Inr (Some ob)"
    | (bybit) "venue = ''Bybit''" "parse_Bybit data now = Inr (Some ob)"
    | (deribit) "venue = ''Deribit''" "parse_Deribit data now = Inr (Some ob)"
    using parse_Some_cases[OF p] by blast
  then show ?thesis
  proof cases
    case okx
    show ?thesis
      using s okx(1)
      by (intro coerced_side_order[OF parse_OKX_Some(1)[OF okx(2)], of venue])
         (simp_all add: message_bids_def)
  next
    case bybit
    show ?thesis
      using s bybit(1)
      by (intro coerced_side_order[OF parse_Bybit_Some(1)[OF bybit(2)], of venue])
         (simp_all add: message_bids_def)
  next
    case deribit
    show ?thesis
      using s deribit(1)
      by (intro raw_side_order[OF parse_Deribit_Some(1)[OF deribit(2)]])
         (simp_all add: message_bids_def)
  qed
qed

lemma parse_order_asks:
  assumes p: "parseOrderbookData venue data now = Some ob"
    and s: "sorted_wrt (\<lambda>a b. R (message_price venue a) (message_price venue b))
              (message_asks venue data)"
  shows "sorted_wrt (\<lambda>a b. R (level_price a) (level_price b)) (asks ob)"
proof -
  consider (okx) "venue = ''OKX''" "parse_OKX data now = Inr (Some ob)"
    | (bybit) "venue = ''Bybit''" "parse_Bybit data now = Inr (Some ob)"
    | (deribit) "venue = ''Deribit''" "parse_Deribit data now = Inr (Some ob)"
    using parse_Some_cases[OF p] by blast
  then show ?thesis
  proof cases
    case okx
    show ?thesis
      using s okx(1)
      by (intro coerced_side_order[OF parse_OKX_Some(2)[OF okx(2)], of venue])
         (simp_all add: message_asks_def)
  next
    case bybit
    show ?thesis
      using s bybit(1)
      by (intro coerced_side_order[OF parse_Bybit_Some(2)[OF bybit(2)], of venue])
         (simp_all add: message_asks_def)
  next
    case deribit
    show ?thesis
      using s deribit(1)
      by (intro raw_side_order[OF parse_Deribit_Some(2)[OF deribit(2)]])
         (simp_all add: message_asks_def)
  qed
qed

subsection \<open>The parsed book\<close>

text \<open>What the parser checked of a book it returns.\<close>

lemma parseOrderbookData_checked:
  assumes "parseOrderbookData venue data now = Some ob"
  shows "(venue = ''OKX'' \<or> venue = ''Bybit'' \<or> venue = ''Deribit'')
       \<and> is_array (field (message_book venue data) (if venue = ''Bybit'' then ''b'' else ''bids''))
       \<and> is_array (field (message_book venue data) (if venue = ''Bybit'' then ''a'' else ''asks''))
       \<and> length (bids ob) \<le> 25 \<and> length (asks ob) \<le> 25 \<and> timestamp ob = now
       \<and> (\<forall>l \<in> set (bids ob) \<union> set (asks ob).
            level_positive l = Inr True \<and> (venue \<noteq> ''Deribit'' \<longrightarrow> positive_pair l))"
proof -
  consider (okx) "venue = ''OKX''" "parse_OKX data now = Inr (Some ob)"
    | (bybit) "venue = ''Bybit''" "parse_Bybit data now = Inr (Some ob)"
    | (deribit) "venue = ''Deribit''" "parse_Deribit data now = Inr (Some ob)"
    using parse_Some_cases[OF assms] by blast
  then show ?thesis
  proof cases
    case okx
    note s = parse_OKX_Some[OF okx(2)]
    show ?thesis
      using okx(1) s(3) coerced_side_levels[OF s(1)] coerced_side_levels[OF s(2)] by auto
  next
    case bybit
    note s = parse_Bybit_Some[OF bybit(2)]
    show ?thesis
      using bybit(1) s(3) coerced_side_levels[OF s(1)] coerced_side_levels[OF s(2)] by auto
  next
    case deribit
    note s = parse_Deribit_Some[OF deribit(2)]
    show ?thesis
      using deribit(1) s(3) raw_side_levels[OF s(1)] raw_side_levels[OF s(2)] by auto
  qed
qed

text \<open>The Deribit case returns levels of the message: the first 25 that pass the test.\<close>

lemma parseOrderbookData_Deribit_raw:
  assumes "parseOrderbookData ''Deribit'' data now = Some ob"
  shows "bids ob = take 25 (filter (\<lambda>l. level_positive l = Inr True) (message_bids ''Deribit'' data))"
    and "asks ob = take 25 (filter (\<lambda>l. level_positive l = Inr True) (message_asks ''Deribit'' data))"
proof -
  have "parse_Deribit data now = Inr (Some ob)"
    using parse_Some_cases[OF assms] by simp
  note s = parse_Deribit_Some[OF this]
  show "bids ob = take 25 (filter (\<lambda>l. level_positive l = Inr True) (message_bids ''Deribit'' data))"
    using raw_side_elements[OF s(1)] by (simp add: message_bids_def)
  show "asks ob = take 25 (filter (\<lambda>l. level_positive l = Inr True) (message_asks ''Deribit'' data))"
    using raw_side_elements[OF s(2)] by (simp add: message_asks_def)
qed

text \<open>
  C7, as the code does it. The parser is total: an exception in the \<open>try\<close> is caught and
  the result is \<open>null\<close>. For every venue and every message value it returns \<open>null\<close> or a
  book, and it returns a book only for one of the three venues and a message whose bid and
  ask fields are arrays. A returned book is stamped with the current time, has at most 25
  levels on each side, and each of its levels passed the test \<open>price > 0 && size > 0\<close>. For
  OKX and Bybit every level is a pair of numbers, both above zero. For Deribit the levels
  are values of the message as they came, neither coerced nor checked for their shape:
  each side is the first 25 of the message's levels that pass the test.
\<close>

theorem parseOrderbookData_levels:
  assumes "parseOrderbookData venue data now = Some ob"
  shows "(venue = ''OKX'' \<or> venue = ''Bybit'' \<or> venue = ''Deribit'')
       \<and> is_array (field (message_book venue data) (if venue = ''Bybit'' then ''b'' else ''bids''))
       \<and> is_array (field (message_book venue data) (if venue = ''Bybit'' then ''a'' else ''asks''))
       \<and> length (bids ob) \<le> 25 \<and> length (asks ob) \<le> 25 \<and> timestamp ob = now
       \<and> (\<forall>l \<in> set (bids ob) \<union> set (asks ob).
            level_positive l = Inr True \<and> (venue \<noteq> ''Deribit'' \<longrightarrow> positive_pair l))
       \<and> (venue = ''Deribit'' \<longrightarrow>
            bids ob = take 25 (filter (\<lambda>l. level_positive l = Inr True) (message_bids venue data))
          \<and> asks ob = take 25 (filter (\<lambda>l. level_positive l = Inr True) (message_asks venue data)))"
proof -
  have "venue = ''Deribit'' \<longrightarrow>
            bids ob = take 25 (filter (\<lambda>l. level_positive l = Inr True) (message_bids venue data))
          \<and> asks ob = take 25 (filter (\<lambda>l. level_positive l = Inr True) (message_asks venue data))"
    using assms parseOrderbookData_Deribit_raw[of data now ob] by blast
  with parseOrderbookData_checked[OF assms] show ?thesis
    by blast
qed

text \<open>
  C7 at the OKX message \<open>okx_ordered\<close> and at the Deribit message \<open>deribit_update\<close>. For
  the first the parser returns the book of its four levels, coerced to numbers, each a
  pair of numbers above zero. For the second it returns the levels of the message that
  pass the test, as they are in the message.
\<close>

theorem parseOrderbookData_levels_witness:
  "parseOrderbookData ''OKX'' okx_ordered 0
     = Some \<lparr> bids = [JArr [JNum (Fin 3), JNum (Fin 1)], JArr [JNum (Fin 2), JNum (Fin 1)]],
              asks = [JArr [JNum (Fin 4), JNum (Fin 1)], JArr [JNum (Fin 5), JNum (Fin 2)]],
              timestamp = 0 \<rparr>
   \<and> positive_pair (JArr [JNum (Fin 3), JNum (Fin 1)])
   \<and> positive_pair (JArr [JNum (Fin 2), JNum (Fin 1)])
   \<and> positive_pair (JArr [JNum (Fin 4), JNum (Fin 1)])
   \<and> positive_pair (JArr [JNum (Fin 5), JNum (Fin 2)])
   \<and> level_positive (JArr [JNum (Fin 3), JNum (Fin 1)]) = Inr True
   \<and> level_positive (JArr [JNum (Fin 5), JNum (Fin 2)]) = Inr True
   \<and> parseOrderbookData ''Deribit'' deribit_update 0
     = Some \<lparr> bids = [JArr [JNum (Fin 95), JNum (Fin 1)]],
              asks = [JArr [JNum (Fin 96), JNum (Fin 2)]], timestamp = 0 \<rparr>
   \<and> [JArr [JNum (Fin 95), JNum (Fin 1)]]
     = take 25 (filter (\<lambda>l. level_positive l = Inr True) (message_bids ''Deribit'' deribit_update))
   \<and> [JArr [JNum (Fin 96), JNum (Fin 2)]]
     = take 25 (filter (\<lambda>l. level_positive l = Inr True) (message_asks ''Deribit'' deribit_update))
   \<and> level_positive (JArr [JNum (Fin 95), JNum (Fin 1)]) = Inr True
   \<and> level_positive (JArr [JNum (Fin 96), JNum (Fin 2)]) = Inr True"
proof -
  have p: "parseOrderbookData ''OKX'' okx_ordered 0
     = Some \<lparr> bids = [JArr [JNum (Fin 3), JNum (Fin 1)], JArr [JNum (Fin 2), JNum (Fin 1)]],
              asks = [JArr [JNum (Fin 4), JNum (Fin 1)], JArr [JNum (Fin 5), JNum (Fin 2)]],
              timestamp = 0 \<rparr>"
    by code_simp
  have q: "parseOrderbookData ''Deribit'' deribit_update 0
     = Some \<lparr> bids = [JArr [JNum (Fin 95), JNum (Fin 1)]],
              asks = [JArr [JNum (Fin 96), JNum (Fin 2)]], timestamp = 0 \<rparr>"
    by code_simp
  note a = parseOrderbookData_levels[OF p]
  note b = parseOrderbookData_levels[OF q]
  have a': "positive_pair (JArr [JNum (Fin 3), JNum (Fin 1)])
   \<and> positive_pair (JArr [JNum (Fin 2), JNum (Fin 1)])
   \<and> positive_pair (JArr [JNum (Fin 4), JNum (Fin 1)])
   \<and> positive_pair (JArr [JNum (Fin 5), JNum (Fin 2)])
   \<and> level_positive (JArr [JNum (Fin 3), JNum (Fin 1)]) = Inr True
   \<and> level_positive (JArr [JNum (Fin 5), JNum (Fin 2)]) = Inr True"
    using a by simp
  have b1: "[JArr [JNum (Fin 95), JNum (Fin 1)]]
     = take 25 (filter (\<lambda>l. level_positive l = Inr True) (message_bids ''Deribit'' deribit_update))"
    and b2: "[JArr [JNum (Fin 96), JNum (Fin 2)]]
     = take 25 (filter (\<lambda>l. level_positive l = Inr True) (message_asks ''Deribit'' deribit_update))"
    using b by (simp_all del: take_Suc_Cons take_Cons_numeral)
  have b3: "level_positive (JArr [JNum (Fin 95), JNum (Fin 1)]) = Inr True
   \<and> level_positive (JArr [JNum (Fin 96), JNum (Fin 2)]) = Inr True"
    using b by simp
  show ?thesis
    using p q a' b1 b2 b3 by blast
qed

text \<open>
  C7, as the claim states it, fails. The Deribit message \<open>deribit_malformed\<close> is malformed,
  and the parser returns a book for it, not \<open>null\<close>; its two bid levels, the string \<open>"95"\<close>
  and the pair \<open>[true, true]\<close>, pass the test under the coercions of the comparison and neither is a
  pair of numbers above zero.
\<close>

theorem parseOrderbookData_malformed_level:
  "parseOrderbookData ''Deribit'' deribit_malformed 0
     = Some \<lparr> bids = [JStr ''95'', JArr [JBool True, JBool True]], asks = [], timestamp = 0 \<rparr>
   \<and> \<not> positive_pair (JStr ''95'')
   \<and> \<not> positive_pair (JArr [JBool True, JBool True])"
  by code_simp

text \<open>
  The parser filters and truncates the levels of the message and keeps their order; it
  has no sort. So the bids of a returned book are strictly descending by price when the
  bid levels of the message are, and its asks strictly ascending when the ask levels of
  the message are: the order of a parsed book is that of the message.
\<close>

lemma parseOrderbookData_keeps_order:
  assumes "parseOrderbookData venue data now = Some ob"
  shows "(descending_by (message_price venue) (message_bids venue data)
            \<longrightarrow> descending_by level_price (bids ob))
       \<and> (ascending_by (message_price venue) (message_asks venue data)
            \<longrightarrow> ascending_by level_price (asks ob))"
  unfolding descending_by_def ascending_by_def
  using parse_order_bids[OF assms, of "\<lambda>x y. num_less y x"] parse_order_asks[OF assms, of num_less]
  by blast

text \<open>
  At the OKX message \<open>okx_ordered\<close>, whose bids descend and whose asks ascend, so do those
  of the book.
\<close>

lemma parseOrderbookData_keeps_order_example:
  "descending_by (message_price ''OKX'') (message_bids ''OKX'' okx_ordered)
   \<and> ascending_by (message_price ''OKX'') (message_asks ''OKX'' okx_ordered)
   \<and> parseOrderbookData ''OKX'' okx_ordered 0
     = Some \<lparr> bids = [JArr [JNum (Fin 3), JNum (Fin 1)], JArr [JNum (Fin 2), JNum (Fin 1)]],
              asks = [JArr [JNum (Fin 4), JNum (Fin 1)], JArr [JNum (Fin 5), JNum (Fin 2)]],
              timestamp = 0 \<rparr>
   \<and> descending_by level_price [JArr [JNum (Fin 3), JNum (Fin 1)], JArr [JNum (Fin 2), JNum (Fin 1)]]
   \<and> ascending_by level_price [JArr [JNum (Fin 4), JNum (Fin 1)], JArr [JNum (Fin 5), JNum (Fin 2)]]"
proof -
  have p: "parseOrderbookData ''OKX'' okx_ordered 0
     = Some \<lparr> bids = [JArr [JNum (Fin 3), JNum (Fin 1)], JArr [JNum (Fin 2), JNum (Fin 1)]],
              asks = [JArr [JNum (Fin 4), JNum (Fin 1)], JArr [JNum (Fin 5), JNum (Fin 2)]],
              timestamp = 0 \<rparr>"
    by code_simp
  have d: "descending_by (message_price ''OKX'') (message_bids ''OKX'' okx_ordered)"
    by code_simp
  have a: "ascending_by (message_price ''OKX'') (message_asks ''OKX'' okx_ordered)"
    by code_simp
  show ?thesis
    using p d a parseOrderbookData_keeps_order[OF p] by simp
qed

text \<open>
  C8 does not hold of the code. The data model asks for the order the claim states: the
  \<open>Orderbook\<close> interface documents its bids as sorted by price descending and its asks as
  sorted by price ascending, and the generator sorts both sides before it returns them.
  The parser returns its levels unsorted. For the OKX message \<open>okx_unordered\<close>, a
  well-formed update whose bid levels ascend and whose ask levels descend, it returns the
  book below: the bids are not descending and the asks are not ascending by price.
\<close>

theorem parseOrderbookData_unordered:
  "parseOrderbookData ''OKX'' okx_unordered 0
     = Some \<lparr> bids = [JArr [JNum (Fin 1), JNum (Fin 1)], JArr [JNum (Fin 2), JNum (Fin 1)]],
              asks = [JArr [JNum (Fin 2), JNum (Fin 1)], JArr [JNum (Fin 1), JNum (Fin 1)]],
              timestamp = 0 \<rparr>
   \<and> \<not> descending_by level_price [JArr [JNum (Fin 1), JNum (Fin 1)], JArr [JNum (Fin 2), JNum (Fin 1)]]
   \<and> \<not> ascending_by level_price [JArr [JNum (Fin 2), JNum (Fin 1)], JArr [JNum (Fin 1), JNum (Fin 1)]]"
  by code_simp

section \<open>Properties of the connection supervisor\<close>

lemmas host_defs = setTimeout_def setInterval_def clearTimer_def ws_close_def ws_send_def
  set_status_def set_orderbook_def

subsection \<open>Connecting\<close>

text \<open>
  With a venue of the \<open>switch\<close> and a constructor that returns, \<open>connectToVenue\<close> makes the
  next transport, files it under the key, installs its handlers and arms the connect
  timeout, a timeout of 15000 ms.
\<close>

lemma connectToVenue_connecting:
  assumes "wsUrl venue \<noteq> None" and "\<not> ctor_throws e"
  shows "\<lparr> timer_id = Suc (timers_made s), delay = 15000, repeating = False,
            callback = ConnectionTimeout (Suc (sockets_made s)) venue symbol \<rparr>
           \<in> set (timers (connectToVenue venue symbol e s))"
    and "websockets (connectToVenue venue symbol e s) (connection_key venue symbol)
           = Some (Suc (sockets_made s))"
    and "handlers (connectToVenue venue symbol e s) (Suc (sockets_made s))
           = Some (venue, symbol, Suc (timers_made s))"
    and "readyState (connectToVenue venue symbol e s) (Suc (sockets_made s)) = CONNECTING"
    and "connectionStatus (connectToVenue venue symbol e s) venue = Some Connecting"
  using assms
  by (auto simp: connectToVenue_def cleanup_existing_def createWebSocket_def host_defs Let_def split: option.splits)

text \<open>
  When the constructor throws, the status is \<open>error\<close> and nothing else of what the hook
  shows changes: the store and the error message are as before, and no timer is armed.
\<close>

lemma connectToVenue_constructor_throws:
  assumes "wsUrl venue \<noteq> None" and "ctor_throws e"
  shows "connectionStatus (connectToVenue venue symbol e s) venue = Some Error"
    and "orderbooks (connectToVenue venue symbol e s) = orderbooks s"
    and "error (connectToVenue venue symbol e s) = error s"
    and "set (timers (connectToVenue venue symbol e s)) \<subseteq> set (timers s)"
  using assms
  by (auto simp: connectToVenue_def cleanup_existing_def createWebSocket_def host_defs Let_def split: option.splits)

text \<open>
  The \<open>catch\<close> of \<open>connectToVenue\<close>, which the \<open>default\<close> case of the \<open>switch\<close> reaches, sets
  the status to \<open>error\<close> and does store a synthetic book.
\<close>

lemma connectToVenue_unsupported_venue:
  assumes "wsUrl venue = None"
  shows "connectionStatus (connectToVenue venue symbol e s) venue = Some Error"
    and "orderbooks (connectToVenue venue symbol e s) venue
           = Some (getMockOrderbookForVenue venue symbol (env_rnd e) (env_now e))"
  using assms
  by (auto simp: connectToVenue_def cleanup_existing_def createWebSocket_def host_defs Let_def split: option.splits)

subsection \<open>The connect timeout\<close>

lemma connectionTimeout_fired_not_open:
  assumes "readyState s ws \<noteq> OPEN"
  shows "readyState (connectionTimeout_fired ws venue symbol e s) ws \<in> {CLOSING, CLOSED}"
    and "connectionStatus (connectionTimeout_fired ws venue symbol e s) venue = Some Connected"
    and "orderbooks (connectionTimeout_fired ws venue symbol e s) venue
           = Some (getMockOrderbookForVenue venue symbol (env_rnd e) (env_now e))"
    and "timers (connectionTimeout_fired ws venue symbol e s)
           = timers s @ [\<lparr> timer_id = Suc (timers_made s), delay = 2000, repeating = True,
                           callback = MockRefresh venue symbol \<rparr>]"
    and "reconnectTimeouts (connectionTimeout_fired ws venue symbol e s)
           (connection_key venue symbol @ ''-mock'') = Some (Suc (timers_made s))"
  using assms
  by (auto simp: connectionTimeout_fired_def host_defs Let_def)

lemma clearTimer_fields:
  "readyState (clearTimer h s) = readyState s"
  "timers_made (clearTimer h s) = timers_made s"
  "timers (clearTimer h s) = filter (\<lambda>t. timer_id t \<noteq> h) (timers s)"
  by (simp_all add: clearTimer_def)

lemma mockRefresh_fired_fields:
  "orderbooks (mockRefresh_fired venue symbol e s) venue
     = Some (getMockOrderbookForVenue venue symbol (env_rnd e) (env_now e))"
  "timers (mockRefresh_fired venue symbol e s) = timers s"
  by (simp_all add: mockRefresh_fired_def host_defs)

text \<open>
  An open event clears the connect timeout of its transport: after it that timeout is not
  pending, so a connect timeout that fires belongs to a transport that had no open event.
\<close>

lemma open_event_clears_timeout:
  assumes "handlers s ws = Some (venue, symbol, ct)" and "ct \<le> timers_made s"
  shows "\<forall>t \<in> set (timers (open_event ws e s)). timer_id t \<noteq> ct"
  using assms
  by (auto simp: open_event_def onopen_def setupHeartbeat_def host_defs Let_def split: prod.splits)

subsection \<open>Handles in use have been issued\<close>

lemma issued_initial: "handles_issued initial_state"
  by (simp add: handles_issued_def initial_state_def)

lemma issued_clearTimer: "handles_issued s \<Longrightarrow> handles_issued (clearTimer h s)"
  by (auto simp: handles_issued_def clearTimer_def)

lemma issued_setTimeout: "handles_issued s \<Longrightarrow> handles_issued (snd (setTimeout cb ms s))"
  by (auto simp: handles_issued_def setTimeout_def Let_def le_Suc_eq)

lemma issued_setInterval: "handles_issued s \<Longrightarrow> handles_issued (snd (setInterval cb ms s))"
  by (auto simp: handles_issued_def setInterval_def Let_def le_Suc_eq)

lemma issued_same:
  "handles_issued s \<Longrightarrow> handles_issued (ws_close w s)"
  "handles_issued s \<Longrightarrow> handles_issued (snd (ws_send w m e s))"
  "handles_issued s \<Longrightarrow> handles_issued (set_status v st s)"
  "handles_issued s \<Longrightarrow> handles_issued (set_orderbook v ob s)"
  "handles_issued s \<Longrightarrow> handles_issued (s\<lparr> error := x \<rparr>)"
  "handles_issued s \<Longrightarrow> handles_issued (s\<lparr> websockets := wm \<rparr>)"
  "handles_issued s \<Longrightarrow> handles_issued (s\<lparr> readyState := rs \<rparr>)"
  "handles_issued s \<Longrightarrow> handles_issued (s\<lparr> sockets_made := n \<rparr>)"
  by (auto simp: handles_issued_def ws_close_def ws_send_def set_status_def set_orderbook_def)

lemma issued_registry:
  "handles_issued s \<Longrightarrow> handles_issued (s\<lparr> heartbeatIntervals := (heartbeatIntervals s)(k := None) \<rparr>)"
  "handles_issued s \<Longrightarrow> handles_issued (s\<lparr> reconnectTimeouts := (reconnectTimeouts s)(k := None) \<rparr>)"
  "handles_issued s \<Longrightarrow> h \<le> timers_made s
     \<Longrightarrow> handles_issued (s\<lparr> heartbeatIntervals := (heartbeatIntervals s)(k \<mapsto> h) \<rparr>)"
  "handles_issued s \<Longrightarrow> h \<le> timers_made s
     \<Longrightarrow> handles_issued (s\<lparr> reconnectTimeouts := (reconnectTimeouts s)(k \<mapsto> h) \<rparr>)"
  "handles_issued s \<Longrightarrow> h \<le> timers_made s
     \<Longrightarrow> handles_issued (s\<lparr> handlers := (handlers s)(w \<mapsto> (v, y, h)) \<rparr>)"
  by (auto simp: handles_issued_def)

lemma issued_clear_registered:
  "handles_issued s \<Longrightarrow>
     handles_issued ((clearTimer h s)\<lparr> heartbeatIntervals := (heartbeatIntervals s)(k := None) \<rparr>)"
  "handles_issued s \<Longrightarrow>
     handles_issued ((clearTimer h s)\<lparr> reconnectTimeouts := (reconnectTimeouts s)(k := None) \<rparr>)"
  by (auto simp: handles_issued_def clearTimer_def)

lemma made_setTimeout:
  "fst (setTimeout cb ms s) = Suc (timers_made s)"
  "timers_made (snd (setTimeout cb ms s)) = Suc (timers_made s)"
  "fst (setInterval cb ms s) = Suc (timers_made s)"
  "timers_made (snd (setInterval cb ms s)) = Suc (timers_made s)"
  by (simp_all add: setTimeout_def setInterval_def Let_def)

lemma issued_cleanup_existing:
  assumes "handles_issued s"
  shows "handles_issued (cleanup_existing key s)"
proof -
  define s1 where "s1 = (case websockets s key of
                  None \<Rightarrow> s
                | Some w \<Rightarrow> (ws_close w s)\<lparr> websockets := (websockets s)(key := None) \<rparr>)"
  define s2 where "s2 = (case heartbeatIntervals s1 key of
                  None \<Rightarrow> s1
                | Some h \<Rightarrow> (clearTimer h s1)\<lparr> heartbeatIntervals := (heartbeatIntervals s1)(key := None) \<rparr>)"
  have e: "cleanup_existing key s = (case reconnectTimeouts s2 key of
           None \<Rightarrow> s2
         | Some h \<Rightarrow> (clearTimer h s2)\<lparr> reconnectTimeouts := (reconnectTimeouts s2)(key := None) \<rparr>)"
    unfolding cleanup_existing_def Let_def s2_def s1_def by (rule refl)
  have 1: "handles_issued s1"
    unfolding s1_def using assms by (auto split: option.split intro!: issued_same)
  have 2: "handles_issued s2"
    unfolding s2_def using 1 by (auto split: option.split intro!: issued_clear_registered)
  show ?thesis
    unfolding e using 2 by (auto split: option.split intro!: issued_clear_registered)
qed

lemma cleanup_existing_made:
  "timers_made (cleanup_existing key s) = timers_made s"
  "sockets_made (cleanup_existing key s) = sockets_made s"
  by (simp_all add: cleanup_existing_def Let_def clearTimer_def ws_close_def split: option.split)


lemma issued_createWebSocket:
  "handles_issued s \<Longrightarrow> handles_issued (snd (createWebSocket url venue e s))"
  "timers_made (snd (createWebSocket url venue e s)) = timers_made s"
  by (auto simp: createWebSocket_def Let_def set_status_def handles_issued_def)

lemma issued_arm:
  assumes "handles_issued s"
  shows "handles_issued
           ((snd (setTimeout cb ms s))\<lparr> handlers := (handlers (snd (setTimeout cb ms s)))
                                              (w \<mapsto> (v, y, fst (setTimeout cb ms s))),
                                           websockets := wm \<rparr>)"
  using issued_same(6)[OF issued_registry(5)[OF issued_setTimeout[OF assms, of cb ms], of "fst (setTimeout cb ms s)" w v y], of wm]
  by (simp add: made_setTimeout)

lemma issued_connectToVenue:
  assumes "handles_issued s"
  shows "handles_issued (connectToVenue venue symbol e s)"
proof -
  let ?s4 = "set_status venue Connecting (cleanup_existing (connection_key venue symbol) s)"
  have 4: "handles_issued ?s4"
    by (intro issued_same issued_cleanup_existing assms)
  show ?thesis
  proof (cases "wsUrl venue")
    case None
    then show ?thesis
      using 4 by (simp add: connectToVenue_def Let_def issued_same)
  next
    case (Some url)
    note 5 = issued_createWebSocket(1)[OF 4, of url venue e]
    show ?thesis
      using Some 5 issued_arm[OF 5]
      by (auto simp: connectToVenue_def Let_def case_prod_beta split: option.split)
  qed
qed

lemma issued_connectionTimeout_fired:
  assumes "handles_issued s"
  shows "handles_issued (connectionTimeout_fired ws venue symbol e s)"
proof -
  let ?s3 = "set_orderbook venue (getMockOrderbookForVenue venue symbol (env_rnd e) (env_now e))
               (set_status venue Connected (ws_close ws s))"
  have 3: "handles_issued ?s3"
    by (intro issued_same assms)
  have "handles_issued ((snd (setInterval cb ms ?s3))
          \<lparr> reconnectTimeouts := (reconnectTimeouts (snd (setInterval cb ms ?s3)))
                                     (k \<mapsto> fst (setInterval cb ms ?s3)) \<rparr>)" for cb ms k
    by (intro issued_registry issued_setInterval 3) (simp add: made_setTimeout)
  then show ?thesis
    using assms by (simp add: connectionTimeout_fired_def Let_def case_prod_beta)
qed

lemma issued_setupHeartbeat:
  assumes "handles_issued s"
  shows "handles_issued (setupHeartbeat ws venue key s)"
proof -
  have "handles_issued ((snd (setInterval cb ms s))
          \<lparr> heartbeatIntervals := (heartbeatIntervals (snd (setInterval cb ms s)))
                                      (k \<mapsto> fst (setInterval cb ms s)) \<rparr>)" for cb ms k
    by (intro issued_registry issued_setInterval assms) (simp add: made_setTimeout)
  then show ?thesis
    by (simp add: setupHeartbeat_def case_prod_beta)
qed

lemma issued_fired:
  "handles_issued s \<Longrightarrow> handles_issued (mockRefresh_fired venue symbol e s)"
  "handles_issued s \<Longrightarrow> handles_issued (heartbeat_fired h ws venue e s)"
  using issued_same(2)[of s ws "Ping venue" e]
  by (auto simp: mockRefresh_fired_def heartbeat_fired_def issued_same issued_clearTimer case_prod_beta
           split: bool.split)

lemma issued_onopen: "handles_issued s \<Longrightarrow> handles_issued (onopen ws c e s)"
  by (cases c) (auto simp: onopen_def Let_def intro!: issued_setupHeartbeat issued_same issued_clearTimer)

lemma issued_onerror: "handles_issued s \<Longrightarrow> handles_issued (onerror ws c s)"
  by (cases c) (auto simp: onerror_def intro!: issued_same)

lemma issued_onclose:
  assumes "handles_issued s"
  shows "handles_issued (onclose ws c code s)"
proof -
  obtain venue symbol ct where c: "c = (venue, symbol, ct)"
    by (cases c)
  let ?key = "connection_key venue symbol"
  let ?s1 = "set_status venue Disconnected s"
  define s2 where "s2 = (case heartbeatIntervals ?s1 ?key of
                     None \<Rightarrow> ?s1
                   | Some h \<Rightarrow> (clearTimer h ?s1)\<lparr> heartbeatIntervals := (heartbeatIntervals ?s1)(?key := None) \<rparr>)"
  have 2: "handles_issued s2"
    unfolding s2_def using assms
    by (auto split: option.split intro!: issued_clear_registered issued_same)
  have 3: "handles_issued ((snd (setTimeout cb ms s2))
          \<lparr> reconnectTimeouts := (reconnectTimeouts (snd (setTimeout cb ms s2)))
                                     (k \<mapsto> fst (setTimeout cb ms s2)) \<rparr>)" for cb ms k
    by (intro issued_registry issued_setTimeout 2) (simp add: made_setTimeout)
  have e: "onclose ws c code s =
            (if code \<noteq> 1000 \<and> code \<noteq> 1001 then
              (let (h, s3) = setTimeout (Reconnect venue symbol) 5000 s2
               in s3\<lparr> reconnectTimeouts := (reconnectTimeouts s3)(?key \<mapsto> h) \<rparr>)
            else s2)"
    unfolding onclose_def c Let_def s2_def by simp
  show ?thesis
    unfolding e using 2 3 by (simp add: case_prod_beta)
qed

lemma issued_run_callback: "handles_issued s \<Longrightarrow> handles_issued (run_callback h cb e s)"
  by (cases cb) (simp_all add: issued_connectionTimeout_fired issued_fired issued_connectToVenue)

lemma issued_fire: "handles_issued s \<Longrightarrow> handles_issued (fire t e s)"
  by (simp add: fire_def issued_run_callback issued_clearTimer)

lemma issued_events:
  "handles_issued s \<Longrightarrow> handles_issued (open_event ws e s)"
  "handles_issued s \<Longrightarrow> handles_issued (error_event ws s)"
  "handles_issued s \<Longrightarrow> handles_issued (close_event ws code s)"
  by (simp_all add: open_event_def error_event_def close_event_def Let_def issued_onopen issued_onerror
        issued_onclose issued_same split: option.split)

lemma issued_step: "handles_issued s \<Longrightarrow> handles_issued (step ev e s)"
  by (cases ev) (simp_all add: step_def issued_connectToVenue issued_fire issued_events)

lemma issued_run: "handles_issued s \<Longrightarrow> handles_issued (run evs s)"
proof (induction evs arbitrary: s)
  case Nil
  then show ?case by simp
next
  case (Cons x evs)
  obtain ev e where x: "x = (ev, e)"
    by (cases x)
  show ?case
    unfolding x using Cons.IH[OF issued_step[OF Cons.prems, of ev e]] by simp
qed


subsection \<open>A pending connect timeout stays pending\<close>

lemma pending_clearTimer:
  "timeout_pending ws t s \<Longrightarrow> h \<noteq> timer_id t \<Longrightarrow> timeout_pending ws t (clearTimer h s)"
  by (auto simp: timeout_pending_def clearTimer_def)

lemma pending_setTimeout:
  "timeout_pending ws t s \<Longrightarrow> timeout_pending ws t (snd (setTimeout cb ms s))"
  "timeout_pending ws t s \<Longrightarrow> fst (setTimeout cb ms s) \<noteq> timer_id t"
  "timeout_pending ws t s \<Longrightarrow> timeout_pending ws t (snd (setInterval cb ms s))"
  "timeout_pending ws t s \<Longrightarrow> fst (setInterval cb ms s) \<noteq> timer_id t"
  by (auto simp: timeout_pending_def setTimeout_def setInterval_def Let_def)

lemma pending_same:
  "timeout_pending ws t s \<Longrightarrow> timeout_pending ws t (ws_close w s)"
  "timeout_pending ws t s \<Longrightarrow> timeout_pending ws t (snd (ws_send w m e s))"
  "timeout_pending ws t s \<Longrightarrow> timeout_pending ws t (set_status v st s)"
  "timeout_pending ws t s \<Longrightarrow> timeout_pending ws t (set_orderbook v ob s)"
  "timeout_pending ws t s \<Longrightarrow> timeout_pending ws t (s\<lparr> error := x \<rparr>)"
  "timeout_pending ws t s \<Longrightarrow> timeout_pending ws t (s\<lparr> websockets := wm \<rparr>)"
  "timeout_pending ws t s \<Longrightarrow> timeout_pending ws t (s\<lparr> sockets_made := n \<rparr>)"
  by (auto simp: timeout_pending_def ws_close_def ws_send_def set_status_def set_orderbook_def)

lemma pending_registry:
  "timeout_pending ws t s \<Longrightarrow> h \<noteq> timer_id t
     \<Longrightarrow> timeout_pending ws t (s\<lparr> heartbeatIntervals := (heartbeatIntervals s)(k \<mapsto> h) \<rparr>)"
  "timeout_pending ws t s \<Longrightarrow> h \<noteq> timer_id t
     \<Longrightarrow> timeout_pending ws t (s\<lparr> reconnectTimeouts := (reconnectTimeouts s)(k \<mapsto> h) \<rparr>)"
  "timeout_pending ws t s \<Longrightarrow> h \<noteq> timer_id t
     \<Longrightarrow> timeout_pending ws t (s\<lparr> handlers := (handlers s)(w \<mapsto> (v, y, h)) \<rparr>)"
  "timeout_pending ws t s \<Longrightarrow> st \<noteq> OPEN \<or> w \<noteq> ws
     \<Longrightarrow> timeout_pending ws t (s\<lparr> readyState := (readyState s)(w := st) \<rparr>)"
  by (auto simp: timeout_pending_def)

lemma pending_clear_registered:
  "timeout_pending ws t s \<Longrightarrow> heartbeatIntervals s k = Some h
     \<Longrightarrow> timeout_pending ws t
           ((clearTimer h s)\<lparr> heartbeatIntervals := (heartbeatIntervals s)(k := None) \<rparr>)"
  "timeout_pending ws t s \<Longrightarrow> reconnectTimeouts s k = Some h
     \<Longrightarrow> timeout_pending ws t
           ((clearTimer h s)\<lparr> reconnectTimeouts := (reconnectTimeouts s)(k := None) \<rparr>)"
  by (auto simp: timeout_pending_def clearTimer_def)

lemma pending_cleanup_existing:
  assumes "timeout_pending ws t s"
  shows "timeout_pending ws t (cleanup_existing key s)"
proof -
  define s1 where "s1 = (case websockets s key of
                  None \<Rightarrow> s
                | Some w \<Rightarrow> (ws_close w s)\<lparr> websockets := (websockets s)(key := None) \<rparr>)"
  define s2 where "s2 = (case heartbeatIntervals s1 key of
                  None \<Rightarrow> s1
                | Some h \<Rightarrow> (clearTimer h s1)\<lparr> heartbeatIntervals := (heartbeatIntervals s1)(key := None) \<rparr>)"
  have e: "cleanup_existing key s = (case reconnectTimeouts s2 key of
           None \<Rightarrow> s2
         | Some h \<Rightarrow> (clearTimer h s2)\<lparr> reconnectTimeouts := (reconnectTimeouts s2)(key := None) \<rparr>)"
    unfolding cleanup_existing_def Let_def s2_def s1_def by (rule refl)
  have 1: "timeout_pending ws t s1"
    unfolding s1_def using assms by (auto split: option.split intro!: pending_same)
  have 2: "timeout_pending ws t s2"
    unfolding s2_def using 1 by (auto split: option.split intro!: pending_clear_registered)
  show ?thesis
    unfolding e using 2 by (auto split: option.split intro!: pending_clear_registered)
qed

lemma pending_createWebSocket:
  "timeout_pending ws t s \<Longrightarrow> timeout_pending ws t (snd (createWebSocket url venue e s))"
  using pending_same(7)[OF pending_registry(4), of ws t s CONNECTING]
  by (auto simp: createWebSocket_def Let_def pending_same)

lemma pending_arm:
  assumes "timeout_pending ws t s"
  shows "timeout_pending ws t
           ((snd (setTimeout cb ms s))\<lparr> handlers := (handlers (snd (setTimeout cb ms s)))
                                              (w \<mapsto> (v, y, fst (setTimeout cb ms s))),
                                           websockets := wm \<rparr>)"
  using pending_same(6)[OF pending_registry(3)[OF pending_setTimeout(1)[OF assms, of cb ms]
          pending_setTimeout(2)[OF assms, of cb ms], of w v y], of wm]
  by simp

lemma pending_connectToVenue:
  assumes "timeout_pending ws t s"
  shows "timeout_pending ws t (connectToVenue venue symbol e s)"
proof -
  let ?s4 = "set_status venue Connecting (cleanup_existing (connection_key venue symbol) s)"
  have 4: "timeout_pending ws t ?s4"
    by (intro pending_same pending_cleanup_existing assms)
  show ?thesis
  proof (cases "wsUrl venue")
    case None
    then show ?thesis
      using 4 by (simp add: connectToVenue_def Let_def pending_same)
  next
    case (Some url)
    note 5 = pending_createWebSocket[OF 4, of url venue e]
    show ?thesis
      using Some 5 pending_arm[OF 5]
      by (auto simp: connectToVenue_def Let_def case_prod_beta split: option.split)
  qed
qed

lemma pending_connectionTimeout_fired:
  assumes "timeout_pending ws t s"
  shows "timeout_pending ws t (connectionTimeout_fired w venue symbol e s)"
proof -
  let ?s3 = "set_orderbook venue (getMockOrderbookForVenue venue symbol (env_rnd e) (env_now e))
               (set_status venue Connected (ws_close w s))"
  have 3: "timeout_pending ws t ?s3"
    by (intro pending_same assms)
  have "timeout_pending ws t ((snd (setInterval cb ms ?s3))
          \<lparr> reconnectTimeouts := (reconnectTimeouts (snd (setInterval cb ms ?s3)))
                                     (k \<mapsto> fst (setInterval cb ms ?s3)) \<rparr>)" for cb ms k
    by (rule pending_registry(2)[OF pending_setTimeout(3)[OF 3] pending_setTimeout(4)[OF 3]])
  then show ?thesis
    using assms by (simp add: connectionTimeout_fired_def Let_def case_prod_beta)
qed

lemma pending_setupHeartbeat:
  assumes "timeout_pending ws t s"
  shows "timeout_pending ws t (setupHeartbeat w venue key s)"
proof -
  have "timeout_pending ws t ((snd (setInterval cb ms s))
          \<lparr> heartbeatIntervals := (heartbeatIntervals (snd (setInterval cb ms s)))
                                      (k \<mapsto> fst (setInterval cb ms s)) \<rparr>)" for cb ms k
    by (rule pending_registry(1)[OF pending_setTimeout(3)[OF assms] pending_setTimeout(4)[OF assms]])
  then show ?thesis
    by (simp add: setupHeartbeat_def case_prod_beta)
qed

lemma pending_fired:
  "timeout_pending ws t s \<Longrightarrow> timeout_pending ws t (mockRefresh_fired venue symbol e s)"
  "timeout_pending ws t s \<Longrightarrow> h \<noteq> timer_id t \<Longrightarrow> timeout_pending ws t (heartbeat_fired h w venue e s)"
  using pending_same(2)[of ws t s w "Ping venue" e]
  by (auto simp: mockRefresh_fired_def heartbeat_fired_def pending_same pending_clearTimer case_prod_beta
           split: bool.split)

lemma pending_onopen:
  assumes "timeout_pending ws t s" and "ct \<noteq> timer_id t"
  shows "timeout_pending ws t (onopen w (venue, symbol, ct) e s)"
  using assms
  by (auto simp: onopen_def Let_def intro!: pending_setupHeartbeat pending_same pending_clearTimer)

lemma pending_onerror: "timeout_pending ws t s \<Longrightarrow> timeout_pending ws t (onerror w c s)"
  by (cases c) (auto simp: onerror_def intro!: pending_same)

lemma pending_onclose:
  assumes "timeout_pending ws t s"
  shows "timeout_pending ws t (onclose w c code s)"
proof -
  obtain venue symbol ct where c: "c = (venue, symbol, ct)"
    by (cases c)
  let ?key = "connection_key venue symbol"
  let ?s1 = "set_status venue Disconnected s"
  define s2 where "s2 = (case heartbeatIntervals ?s1 ?key of
                     None \<Rightarrow> ?s1
                   | Some h \<Rightarrow> (clearTimer h ?s1)\<lparr> heartbeatIntervals := (heartbeatIntervals ?s1)(?key := None) \<rparr>)"
  have 2: "timeout_pending ws t s2"
    unfolding s2_def using assms
    by (auto split: option.split intro!: pending_clear_registered pending_same)
  have 3: "timeout_pending ws t ((snd (setTimeout cb ms s2))
          \<lparr> reconnectTimeouts := (reconnectTimeouts (snd (setTimeout cb ms s2)))
                                     (k \<mapsto> fst (setTimeout cb ms s2)) \<rparr>)" for cb ms k
    by (rule pending_registry(2)[OF pending_setTimeout(1)[OF 2] pending_setTimeout(2)[OF 2]])
  have e: "onclose w c code s =
            (if code \<noteq> 1000 \<and> code \<noteq> 1001 then
              (let (h, s3) = setTimeout (Reconnect venue symbol) 5000 s2
               in s3\<lparr> reconnectTimeouts := (reconnectTimeouts s3)(?key \<mapsto> h) \<rparr>)
            else s2)"
    unfolding onclose_def c Let_def s2_def by simp
  show ?thesis
    unfolding e using 2 3 by (simp add: case_prod_beta)
qed

lemma pending_run_callback:
  "timeout_pending ws t s \<Longrightarrow> h \<noteq> timer_id t \<Longrightarrow> timeout_pending ws t (run_callback h cb e s)"
  by (cases cb) (simp_all add: pending_connectionTimeout_fired pending_fired pending_connectToVenue)

lemma pending_fire:
  assumes "timeout_pending ws t s" and "u \<in> set (timers s)" and "u \<noteq> t"
  shows "timeout_pending ws t (fire u e s)"
proof -
  have n: "timer_id u \<noteq> timer_id t"
    using assms by (auto simp: timeout_pending_def)
  show ?thesis
    using assms(1) n by (simp add: fire_def pending_run_callback pending_clearTimer)
qed

lemma pending_open_event:
  assumes "timeout_pending ws t s" and "w \<noteq> ws"
  shows "timeout_pending ws t (open_event w e s)"
proof -
  have 1: "timeout_pending ws t (s\<lparr> readyState := (readyState s)(w := OPEN) \<rparr>)"
    using assms by (intro pending_registry) simp_all
  show ?thesis
  proof (cases "handlers s w")
    case None
    then show ?thesis
      using 1 by (simp add: open_event_def)
  next
    case (Some c)
    obtain venue symbol ct where c: "c = (venue, symbol, ct)"
      by (cases c)
    have "ct \<noteq> timer_id t"
      using assms Some c by (auto simp: timeout_pending_def)
    then show ?thesis
      using Some c pending_onopen[OF 1] by (simp add: open_event_def)
  qed
qed

lemma pending_events:
  "timeout_pending ws t s \<Longrightarrow> timeout_pending ws t (error_event w s)"
  "timeout_pending ws t s \<Longrightarrow> timeout_pending ws t (close_event w code s)"
  by (simp_all add: error_event_def close_event_def Let_def pending_onerror pending_onclose pending_registry
        split: option.split)

lemma pending_step:
  assumes "timeout_pending ws t s" and "ev \<noteq> OpenEvent ws" and "ev \<noteq> TimerFires t"
  shows "timeout_pending ws t (step ev e s)"
  using assms
  by (cases ev) (auto simp: step_def pending_connectToVenue pending_fire pending_open_event pending_events)

lemma pending_run:
  assumes "timeout_pending ws t s"
    and "\<forall>x \<in> set evs. fst x \<noteq> OpenEvent ws \<and> fst x \<noteq> TimerFires t"
  shows "timeout_pending ws t (run evs s)"
  using assms
proof (induction evs arbitrary: s)
  case Nil
  then show ?case by simp
next
  case (Cons x evs)
  obtain ev e where x: "x = (ev, e)"
    by (cases x)
  have "timeout_pending ws t (step ev e s)"
    using Cons.prems x by (intro pending_step) simp_all
  then show ?case
    unfolding x using Cons.IH Cons.prems(2) by simp
qed

lemma pending_after_connect:
  assumes "handles_issued s" and "wsUrl venue \<noteq> None" and "\<not> ctor_throws e"
  shows "timeout_pending (Suc (sockets_made s))
           \<lparr> timer_id = Suc (timers_made s), delay = 15000, repeating = False,
             callback = ConnectionTimeout (Suc (sockets_made s)) venue symbol \<rparr>
           (connectToVenue venue symbol e s)"
proof -
  let ?s4 = "set_status venue Connecting (cleanup_existing (connection_key venue symbol) s)"
  have 4: "handles_issued ?s4"
    by (intro issued_same issued_cleanup_existing assms)
  have m: "timers_made ?s4 = timers_made s" "sockets_made ?s4 = sockets_made s"
    by (simp_all add: set_status_def cleanup_existing_made)
  have a: "\<forall>u \<in> set (timers ?s4). timer_id u \<noteq> Suc (timers_made s)"
    using 4 m by (fastforce simp: handles_issued_def)
  have b: "\<forall>k. heartbeatIntervals ?s4 k \<noteq> Some (Suc (timers_made s))"
    using 4 m by (fastforce simp: handles_issued_def)
  have c: "\<forall>k. reconnectTimeouts ?s4 k \<noteq> Some (Suc (timers_made s))"
    using 4 m by (fastforce simp: handles_issued_def)
  have d: "\<forall>w v y. handlers ?s4 w \<noteq> Some (v, y, Suc (timers_made s))"
    using 4 m by (fastforce simp: handles_issued_def)
  obtain url where u: "wsUrl venue = Some url"
    using assms(2) by auto
  have e: "connectToVenue venue symbol e s =
      (let ws = Suc (sockets_made s);
           s5 = ?s4\<lparr> readyState := (readyState ?s4)(ws := CONNECTING), sockets_made := ws \<rparr>;
           (ct, s6) = setTimeout (ConnectionTimeout ws venue symbol) 15000 s5
       in s6\<lparr> handlers := (handlers s6)(ws \<mapsto> (venue, symbol, ct)),
              websockets := (websockets s6)(connection_key venue symbol \<mapsto> ws) \<rparr>)"
    using assms(3) u m by (simp add: connectToVenue_def Let_def createWebSocket_def)
  show ?thesis
    unfolding e using a b c d m
    by (simp add: Let_def setTimeout_def timeout_pending_def)
qed

subsection \<open>The fallback\<close>

text \<open>
  C3. Time is the order of the host's steps. Starting a connection (in a state of a run, for
  a venue of the \<open>switch\<close>, with a constructor that returns) arms a timeout of 15000 ms for
  the new transport. Whatever the host does next, as long as that transport has no open
  event and the timeout has not fired, the timeout stays pending. When it then fires, the
  supervisor closes the transport, sets the venue's status to \<open>connected\<close>, stores a
  synthetic book for the venue and starts an interval of 2000 ms, filed under the key with
  \<open>-mock\<close> appended. Each time that interval fires, in whatever state, it stores a fresh
  synthetic book for the venue and stays pending.
\<close>

theorem connect_timeout_fallback:
  assumes "handles_issued s0" and "wsUrl venue \<noteq> None" and "\<not> ctor_throws e0"
    and "\<forall>x \<in> set evs.
           fst x \<noteq> OpenEvent (Suc (sockets_made s0))
           \<and> fst x \<noteq> TimerFires \<lparr> timer_id = Suc (timers_made s0), delay = 15000,
                                   repeating = False,
                                   callback = ConnectionTimeout (Suc (sockets_made s0)) venue symbol \<rparr>"
  shows
    "(let ws = Suc (sockets_made s0);
          t = \<lparr> timer_id = Suc (timers_made s0), delay = 15000, repeating = False,
                callback = ConnectionTimeout ws venue symbol \<rparr>;
          s = run evs (connectToVenue venue symbol e0 s0);
          s' = step (TimerFires t) e s;
          m = \<lparr> timer_id = Suc (timers_made s), delay = 2000, repeating = True,
                callback = MockRefresh venue symbol \<rparr>
      in t \<in> set (timers s)
       \<and> readyState s' ws \<in> {CLOSING, CLOSED}
       \<and> connectionStatus s' venue = Some Connected
       \<and> orderbooks s' venue = Some (getMockOrderbookForVenue venue symbol (env_rnd e) (env_now e))
       \<and> m \<in> set (timers s')
       \<and> reconnectTimeouts s' (connection_key venue symbol @ ''-mock'') = Some (timer_id m)
       \<and> orderbooks (fire m e' s'') venue
            = Some (getMockOrderbookForVenue venue symbol (env_rnd e') (env_now e'))
       \<and> timers (fire m e' s'') = timers s'')"
proof -
  let ?ws = "Suc (sockets_made s0)"
  let ?t = "\<lparr> timer_id = Suc (timers_made s0), delay = 15000, repeating = False,
              callback = ConnectionTimeout ?ws venue symbol \<rparr>"
  let ?s = "run evs (connectToVenue venue symbol e0 s0)"
  have p: "timeout_pending ?ws ?t ?s"
    by (rule pending_run[OF pending_after_connect[OF assms(1,2,3)] assms(4)])
  then have t: "?t \<in> set (timers ?s)" and o: "readyState ?s ?ws \<noteq> OPEN"
    by (simp_all add: timeout_pending_def)
  let ?c = "clearTimer (Suc (timers_made s0)) ?s"
  have oc: "readyState ?c ?ws \<noteq> OPEN"
    using o by (simp add: clearTimer_fields)
  note f = connectionTimeout_fired_not_open[OF oc, of venue symbol e]
  show ?thesis
    using t f
    by (simp add: Let_def step_def fire_def clearTimer_fields mockRefresh_fired_fields)
qed

text \<open>
  C3 from the first render: OKX is connected for \<open>BTC-USD\<close>, the transport has an error
  event and a close event with code 1006 and never an open event; the connect timeout is
  still pending after them, and when it fires the status is \<open>connected\<close>, the store holds
  a book for OKX and the refresh interval is pending.
\<close>

theorem connect_timeout_fallback_witness:
  "\<lparr> timer_id = 1, delay = 15000, repeating = False,
      callback = ConnectionTimeout 1 ''OKX'' ''BTC-USD'' \<rparr>
     \<in> set (timers (run [(ErrorEvent 1, ok_env), (CloseEvent 1 1006, ok_env)]
                      (connectToVenue ''OKX'' ''BTC-USD'' ok_env initial_state)))
   \<and> connectionStatus
        (step (TimerFires \<lparr> timer_id = 1, delay = 15000, repeating = False,
                             callback = ConnectionTimeout 1 ''OKX'' ''BTC-USD'' \<rparr>) ok_env
           (run [(ErrorEvent 1, ok_env), (CloseEvent 1 1006, ok_env)]
              (connectToVenue ''OKX'' ''BTC-USD'' ok_env initial_state))) ''OKX'' = Some Connected
   \<and> orderbooks
        (step (TimerFires \<lparr> timer_id = 1, delay = 15000, repeating = False,
                             callback = ConnectionTimeout 1 ''OKX'' ''BTC-USD'' \<rparr>) ok_env
           (run [(ErrorEvent 1, ok_env), (CloseEvent 1 1006, ok_env)]
              (connectToVenue ''OKX'' ''BTC-USD'' ok_env initial_state))) ''OKX'' \<noteq> None
   \<and> \<lparr> timer_id = 3, delay = 2000, repeating = True, callback = MockRefresh ''OKX'' ''BTC-USD'' \<rparr>
       \<in> set (timers
            (step (TimerFires \<lparr> timer_id = 1, delay = 15000, repeating = False,
                                 callback = ConnectionTimeout 1 ''OKX'' ''BTC-USD'' \<rparr>) ok_env
               (run [(ErrorEvent 1, ok_env), (CloseEvent 1 1006, ok_env)]
                  (connectToVenue ''OKX'' ''BTC-USD'' ok_env initial_state))))"
proof -
  have u: "wsUrl ''OKX'' \<noteq> None"
    by (simp add: wsUrl_def)
  have c: "\<not> ctor_throws ok_env"
    by (simp add: ok_env_def)
  have i: "sockets_made initial_state = 0" "timers_made initial_state = 0"
    by (simp_all add: initial_state_def)
  have n: "\<forall>x \<in> set [(ErrorEvent 1, ok_env), (CloseEvent 1 1006, ok_env)].
             fst x \<noteq> OpenEvent (Suc (sockets_made initial_state))
             \<and> fst x \<noteq> TimerFires \<lparr> timer_id = Suc (timers_made initial_state), delay = 15000,
                  repeating = False,
                  callback = ConnectionTimeout (Suc (sockets_made initial_state)) ''OKX'' ''BTC-USD'' \<rparr>"
    by simp
  have m: "timers_made (step (CloseEvent (Suc 0) 1006) ok_env (step (ErrorEvent (Suc 0)) ok_env
                          (connectToVenue ''OKX'' ''BTC-USD'' ok_env initial_state))) = Suc (Suc 0)"
    by (simp add: connectToVenue_def cleanup_existing_def createWebSocket_def host_defs Let_def
          wsUrl_def ok_env_def initial_state_def connection_key_def step_def error_event_def
          close_event_def onerror_def onclose_def)
  show ?thesis
    using connect_timeout_fallback[OF issued_initial u c n, where e = ok_env and e' = ok_env
        and s'' = initial_state]
    by (simp add: Let_def i m numeral_3_eq_3)
qed

subsection \<open>Failure of the constructor\<close>

text \<open>
  C4, on the code: when the constructor throws on connecting OKX for \<open>BTC-USD\<close> from the
  first render, the status of OKX is \<open>error\<close>, and the store has no book for OKX; no error
  message is set and no timer is armed.
\<close>

theorem constructor_failure_stores_nothing:
  "connectionStatus (connectToVenue ''OKX'' ''BTC-USD'' failing_env initial_state) ''OKX'' = Some Error
   \<and> orderbooks (connectToVenue ''OKX'' ''BTC-USD'' failing_env initial_state) ''OKX'' = None
   \<and> error (connectToVenue ''OKX'' ''BTC-USD'' failing_env initial_state) = None
   \<and> timers (connectToVenue ''OKX'' ''BTC-USD'' failing_env initial_state) = []"
  by (simp add: connectToVenue_def cleanup_existing_def createWebSocket_def host_defs Let_def wsUrl_def failing_env_def
        initial_state_def connection_key_def)

subsection \<open>Close and error events\<close>

lemma close_event_normal:
  assumes "handlers s ws = Some (venue, symbol, ct)" and "code = 1000 \<or> code = 1001"
  shows "set (timers (close_event ws code s)) \<subseteq> set (timers s)"
    and "reconnectTimeouts (close_event ws code s) = reconnectTimeouts s"
    and "timers (close_event ws code s) = timers (close_event ws 1000 s)"
  using assms
  by (auto simp: close_event_def onclose_def host_defs Let_def split: option.splits prod.splits)

lemma close_event_abnormal:
  assumes "handlers s ws = Some (venue, symbol, ct)" and "code \<noteq> 1000" and "code \<noteq> 1001"
  shows "timers (close_event ws code s)
           = timers (close_event ws 1000 s)
             @ [\<lparr> timer_id = Suc (timers_made s), delay = 5000, repeating = False,
                   callback = Reconnect venue symbol \<rparr>]"
    and "reconnectTimeouts (close_event ws code s) (connection_key venue symbol)
           = Some (Suc (timers_made s))"
  using assms
  by (auto simp: close_event_def onclose_def host_defs Let_def split: option.splits prod.splits)

text \<open>
  C5, as the code does it. After a close event of a transport, with any code, the status of
  its venue is \<open>disconnected\<close>; after an error event it is \<open>error\<close>.
\<close>

theorem close_event_disconnected:
  assumes "handlers s ws = Some (venue, symbol, ct)"
  shows "connectionStatus (close_event ws code s) venue = Some Disconnected
       \<and> connectionStatus (error_event ws s) venue = Some Error"
  using assms
  by (auto simp: close_event_def onclose_def error_event_def onerror_def host_defs Let_def
           split: option.splits prod.splits)

text \<open>C5 at the transport of OKX connected from the first render, closed with code 1006.\<close>

theorem close_event_disconnected_witness:
  "handlers (connectToVenue ''OKX'' ''BTC-USD'' ok_env initial_state) 1 = Some (''OKX'', ''BTC-USD'', 1)
   \<and> connectionStatus (close_event 1 1006 (connectToVenue ''OKX'' ''BTC-USD'' ok_env initial_state)) ''OKX''
       = Some Disconnected
   \<and> connectionStatus (error_event 1 (connectToVenue ''OKX'' ''BTC-USD'' ok_env initial_state)) ''OKX''
       = Some Error"
proof -
  have h: "handlers (connectToVenue ''OKX'' ''BTC-USD'' ok_env initial_state) 1
             = Some (''OKX'', ''BTC-USD'', 1)"
    by (simp add: connectToVenue_def cleanup_existing_def createWebSocket_def host_defs Let_def wsUrl_def ok_env_def
          initial_state_def connection_key_def)
  show ?thesis
    using h close_event_disconnected[OF h, where code = 1006] by simp
qed

text \<open>
  C5, as the claim states it, fails: after the close event with code 1006 on that transport
  the status of OKX is not \<open>error\<close>, and it is not the status after an error event.
\<close>

theorem close_event_1006_not_error:
  "connectionStatus (close_event 1 1006 (connectToVenue ''OKX'' ''BTC-USD'' ok_env initial_state)) ''OKX''
     \<noteq> Some Error
   \<and> connectionStatus (close_event 1 1006 (connectToVenue ''OKX'' ''BTC-USD'' ok_env initial_state)) ''OKX''
     \<noteq> connectionStatus (error_event 1 (connectToVenue ''OKX'' ''BTC-USD'' ok_env initial_state)) ''OKX''"
  by (simp add: connectToVenue_def cleanup_existing_def createWebSocket_def host_defs Let_def wsUrl_def ok_env_def
        initial_state_def connection_key_def close_event_def error_event_def onclose_def
        onerror_def)

text \<open>
  C6. A close event with code 1006 leaves the timers that a close event with code 1000
  leaves and one more: a timeout of 5000 ms, not repeating, whose callback is the
  reconnection of the venue and symbol (one call of \<open>connectToVenue\<close>); its handle is filed
  under the key. A close event with code 1000 or 1001 arms no timer: the timers after it
  are among those before it, and the registry of reconnections is unchanged.
\<close>

theorem close_event_reconnection:
  assumes "handlers s ws = Some (venue, symbol, ct)"
  shows "timers (close_event ws 1006 s)
           = timers (close_event ws 1000 s)
             @ [\<lparr> timer_id = Suc (timers_made s), delay = 5000, repeating = False,
                   callback = Reconnect venue symbol \<rparr>]
       \<and> reconnectTimeouts (close_event ws 1006 s) (connection_key venue symbol)
           = Some (Suc (timers_made s))
       \<and> run_callback (Suc (timers_made s)) (Reconnect venue symbol) e s'
           = connectToVenue venue symbol e s'
       \<and> set (timers (close_event ws 1000 s)) \<subseteq> set (timers s)
       \<and> reconnectTimeouts (close_event ws 1000 s) = reconnectTimeouts s
       \<and> set (timers (close_event ws 1001 s)) \<subseteq> set (timers s)
       \<and> reconnectTimeouts (close_event ws 1001 s) = reconnectTimeouts s"
  using close_event_abnormal[OF assms, where code = 1006]
    close_event_normal(1,2)[OF assms, where code = 1000]
    close_event_normal(1,2)[OF assms, where code = 1001]
  by simp

text \<open>
  C6 at the transport of OKX connected from the first render, where the only timer is the
  connect timeout: the close event with code 1006 adds the reconnection, the close event with
  code 1000 adds nothing.
\<close>

theorem close_event_reconnection_witness:
  "handlers (connectToVenue ''OKX'' ''BTC-USD'' ok_env initial_state) 1 = Some (''OKX'', ''BTC-USD'', 1)
   \<and> timers (close_event 1 1000 (connectToVenue ''OKX'' ''BTC-USD'' ok_env initial_state))
       = [\<lparr> timer_id = 1, delay = 15000, repeating = False,
            callback = ConnectionTimeout 1 ''OKX'' ''BTC-USD'' \<rparr>]
   \<and> timers (close_event 1 1006 (connectToVenue ''OKX'' ''BTC-USD'' ok_env initial_state))
       = [\<lparr> timer_id = 1, delay = 15000, repeating = False,
            callback = ConnectionTimeout 1 ''OKX'' ''BTC-USD'' \<rparr>,
          \<lparr> timer_id = 2, delay = 5000, repeating = False,
            callback = Reconnect ''OKX'' ''BTC-USD'' \<rparr>]"
proof -
  have h: "handlers (connectToVenue ''OKX'' ''BTC-USD'' ok_env initial_state) 1
             = Some (''OKX'', ''BTC-USD'', 1)"
    by (simp add: connectToVenue_def cleanup_existing_def createWebSocket_def host_defs Let_def wsUrl_def ok_env_def
          initial_state_def connection_key_def)
  have m: "timers_made (connectToVenue ''OKX'' ''BTC-USD'' ok_env initial_state) = 1"
    by (simp add: connectToVenue_def cleanup_existing_def createWebSocket_def host_defs Let_def wsUrl_def ok_env_def
          initial_state_def connection_key_def)
  have n: "timers (close_event 1 1000 (connectToVenue ''OKX'' ''BTC-USD'' ok_env initial_state))
       = [\<lparr> timer_id = 1, delay = 15000, repeating = False,
            callback = ConnectionTimeout 1 ''OKX'' ''BTC-USD'' \<rparr>]"
    by (simp add: connectToVenue_def cleanup_existing_def createWebSocket_def host_defs Let_def wsUrl_def ok_env_def
          initial_state_def connection_key_def close_event_def onclose_def)
  show ?thesis
    using h n close_event_reconnection[OF h, where e = ok_env and s' = initial_state]
    by (simp add: m numeral_2_eq_2)
qed


end
